theory Spec2Isabelle
  imports Main
begin

section \<open>Room Directory: signaling-server/server.js\<close>

subsection \<open>Values that arrive in parsed messages\<close>

text \<open>
  The directory reads five properties of a parsed message (\<open>type\<close>, \<open>roomId\<close>,
  \<open>nickname\<close>, \<open>to\<close>, \<open>signal\<close>). It tests the values it finds there for truthiness,
  compares them with \<open>===\<close> or uses them as \<open>Map\<close> keys (SameValueZero), stores them,
  sends them back out, and formats them into console lines and error texts with template
  literals. A value is therefore modelled up to what these operations can see:
  \<^item> \<open>JUndefined\<close>: the property is absent;
  \<^item> \<open>JNum n\<close>: a number, \<open>n\<close> indexing the doubles \<open>JSON.parse\<close> can return (never NaN),
    both zeros at \<open>0\<close>;
  \<^item> \<open>JRef a ok\<close>: an object or array, identified by its address \<open>a\<close> as \<open>Map\<close> and
    \<open>===\<close> do; \<open>ok\<close> tells whether converting it to a string returns. The conversion
    of a parsed object throws a \<open>TypeError\<close> when the object has a key \<open>toString\<close> of its
    own, as \<open>{"toString": 1}\<close> has (the value is not callable, and the inherited
    \<open>valueOf\<close> returns the object itself), and that of an array when one of its elements
    throws.
\<close>

datatype jsval = JUndefined | JNull | JBool bool | JNum int | JStr string | JRef nat bool

fun truthy :: "jsval \<Rightarrow> bool" where
  "truthy JUndefined = False"
| "truthy JNull = False"
| "truthy (JBool b) = b"
| "truthy (JNum n) = (n \<noteq> 0)"
| "truthy (JStr s) = (s \<noteq> [])"
| "truthy (JRef a ok) = True"

text \<open>
  \<open>printable v\<close>: the template literal \<open>`${v}`\<close> returns a string. It does for every
  primitive, \<open>undefined\<close> and \<open>null\<close> included.
\<close>

fun printable :: "jsval \<Rightarrow> bool" where
  "printable (JRef a ok) = ok"
| "printable v = True"

text \<open>Property lookup on a parsed object: \<open>JUndefined\<close> where the object has no such key.\<close>

type_synonym jsobject = "string \<Rightarrow> jsval"

text \<open>
  What \<open>JSON.parse\<close> returned: \<open>null\<close>, or a value whose properties can be read (an
  object; a number, string, boolean or array reads as \<open>undefined\<close> at all five names).
\<close>

datatype parsed = PNull | PObject jsobject

text \<open>The frame handed to the \<open>message\<close> listener: \<open>JSON.parse\<close> throws or returns.\<close>

datatype inbound = Unparseable | Parses parsed

datatype js_error = TypeError

text \<open>
  How a call ended. A handler that throws has already changed the directory and sent
  messages up to the statement that threw, so every handler below returns the directory
  and the effects it reached together with its completion.
\<close>

datatype completion = Returns | Throws js_error

subsection \<open>Sockets, messages sent, console lines\<close>

datatype ready_state = CONNECTING | OPEN | CLOSING | CLOSED

datatype error_text =
    InvalidMessageFormat           \<comment> \<open>\<open>'Invalid message format'\<close>\<close>
  | UnknownMessageType jsval       \<comment> \<open>\<open>`Unknown message type: ${message.type}`\<close>\<close>

datatype server_msg =
    Connected string                              \<comment> \<open>participantId\<close>
  | RoomJoined jsval string                       \<comment> \<open>roomId, participantId\<close>
  | RoomLeft jsval                                \<comment> \<open>roomId\<close>
  | ParticipantJoined string jsval                \<comment> \<open>participantId, nickname\<close>
  | ParticipantLeft string                        \<comment> \<open>participantId\<close>
  | ExistingParticipants "(string \<times> jsval) list"  \<comment> \<open>participants: participantId, nickname\<close>
  | SignalMsg string jsval                        \<comment> \<open>from, signal\<close>
  | ErrorMsg error_text                           \<comment> \<open>message\<close>

datatype log_line =
    NewConnection string
  | ErrorParsing
  | ConnectionClosed string
  | WebSocketError string
  | MessageFrom string jsval
  | UnknownType jsval
  | JoinedRoom string jsval jsval
  | RoomDeleted jsval
  | LeftRoom string jsval
  | TargetNotFound jsval
  | SignalForwarded string jsval

text \<open>\<open>Send w m\<close> is \<open>ws.send(JSON.stringify(m))\<close> on the socket \<open>w\<close>.\<close>

datatype effect =
    Send nat server_msg
  | ConsoleLog log_line
  | ConsoleWarn log_line
  | ConsoleError log_line

subsection \<open>State\<close>

record participant =
  ws :: nat
  roomId :: jsval
  nickname :: jsval

text \<open>
  \<open>rooms\<close> maps a room id to a \<open>Set\<close> of participant ids, kept as the list of its
  members in insertion order. \<open>readyState\<close> is the store of the sockets: a socket is
  shared by the listener that captured it and the participant record that holds it.
\<close>

record server =
  rooms :: "jsval \<rightharpoonup> string list"
  participants :: "string \<rightharpoonup> participant"
  readyState :: "nat \<Rightarrow> ready_state"

definition set_add :: "string list \<Rightarrow> string \<Rightarrow> string list" where
  "set_add xs x = (if x \<in> set xs then xs else xs @ [x])"

definition set_delete :: "string list \<Rightarrow> string \<Rightarrow> string list" where
  "set_delete xs x = removeAll x xs"

text \<open>\<open>this.participants.get(k)\<close> for a key taken from a message: the keys are strings.\<close>

definition participants_get :: "server \<Rightarrow> jsval \<Rightarrow> participant option" where
  "participants_get st k = (case k of JStr s \<Rightarrow> participants st s | _ \<Rightarrow> None)"

definition init_server :: "(nat \<Rightarrow> ready_state) \<Rightarrow> server" where
  "init_server rs = \<lparr>rooms = Map.empty, participants = Map.empty, readyState = rs\<rparr>"

subsection \<open>Sending\<close>

definition sendMessage :: "server \<Rightarrow> nat \<Rightarrow> server_msg \<Rightarrow> effect list" where
  "sendMessage st w m = (if readyState st w = OPEN then [Send w m] else [])"

definition sendError :: "server \<Rightarrow> nat \<Rightarrow> error_text \<Rightarrow> effect list" where
  "sendError st w errorMessage = sendMessage st w (ErrorMsg errorMessage)"

definition broadcastToRoom ::
  "server \<Rightarrow> jsval \<Rightarrow> server_msg \<Rightarrow> string option \<Rightarrow> effect list" where
  "broadcastToRoom st rid m excludeParticipantId =
     (case rooms st rid of
        None \<Rightarrow> []
      | Some room \<Rightarrow>
          concat (map (\<lambda>participantId.
            if Some participantId = excludeParticipantId then []
            else (case participants st participantId of
                    None \<Rightarrow> []
                  | Some p \<Rightarrow>
                      if readyState st (ws p) = OPEN then sendMessage st (ws p) m else []))
            room))"

subsection \<open>Handlers\<close>

text \<open>What a handler did: the directory and the effects it reached, and how it ended.\<close>

type_synonym outcome = "server \<times> effect list \<times> completion"

text \<open>
  \<open>handleLeaveRoom\<close> formats the room id into two console lines:
  \<open>`Room ${roomId} deleted (empty)`\<close>, once the emptied room is out of the map, and
  \<open>`... left room ${roomId}`\<close>, before \<open>participant.roomId = null\<close> and the \<open>room-left\<close>
  reply.
\<close>

definition handleLeaveRoom :: "server \<Rightarrow> string \<Rightarrow> outcome" where
  "handleLeaveRoom st participantId =
     (case participants st participantId of
        None \<Rightarrow> (st, [], Returns)
      | Some p \<Rightarrow>
          if \<not> truthy (roomId p) then (st, [], Returns)
          else
            let rid = roomId p;
                (st1, e1, c1) =
                  (case rooms st rid of
                     None \<Rightarrow> (st, [], Returns)
                   | Some room \<Rightarrow>
                       let room' = set_delete room participantId in
                       if room' = []
                       then
                         let st' = st\<lparr>rooms := (rooms st)(rid := None)\<rparr>
                         in if printable rid then (st', [ConsoleLog (RoomDeleted rid)], Returns)
                            else (st', [], Throws TypeError)
                       else
                         let st' = st\<lparr>rooms := (rooms st)(rid \<mapsto> room')\<rparr>
                         in (st', broadcastToRoom st' rid (ParticipantLeft participantId) None,
                             Returns))
            in case c1 of
                 Throws err \<Rightarrow> (st1, e1, Throws err)
               | Returns \<Rightarrow>
                   if \<not> printable rid then (st1, e1, Throws TypeError)
                   else
                     let st2 = st1\<lparr>participants :=
                                 (participants st1)(participantId \<mapsto> p\<lparr>roomId := JNull\<rparr>)\<rparr>
                     in (st2, e1 @ [ConsoleLog (LeftRoom participantId rid)]
                                @ sendMessage st2 (ws p) (RoomLeft rid),
                         Returns))"

definition or_anonymous :: "jsval \<Rightarrow> jsval" where
  "or_anonymous v = (if truthy v then v else JStr ''Anonymous'')"

text \<open>
  \<open>handleJoinRoom\<close> formats the room id and the nickname into
  \<open>`... joined room ${roomId} as "${participant.nickname}"`\<close> once the participant record
  and the room are written, and before anything is sent. An exception of the
  \<open>handleLeaveRoom\<close> it calls first ends it there.
\<close>

definition handleJoinRoom :: "server \<Rightarrow> string \<Rightarrow> jsobject \<Rightarrow> outcome" where
  "handleJoinRoom st participantId message =
     (let rid = message ''roomId''; nick = message ''nickname''
      in case participants st participantId of
           None \<Rightarrow> (st, [], Returns)
         | Some p \<Rightarrow>
             if \<not> truthy rid then (st, [], Returns)
             else
               let (st1, e1, c1) =
                     (if truthy (roomId p) then handleLeaveRoom st participantId
                      else (st, [], Returns))
               in case c1 of
                    Throws err \<Rightarrow> (st1, e1, Throws err)
                  | Returns \<Rightarrow>
                      let room = (case rooms st1 rid of None \<Rightarrow> [] | Some r \<Rightarrow> r);
                          p' = p\<lparr>roomId := rid, nickname := or_anonymous nick\<rparr>;
                          room' = set_add room participantId;
                          st2 = st1\<lparr>rooms := (rooms st1)(rid \<mapsto> room'),
                                    participants := (participants st1)(participantId \<mapsto> p')\<rparr>
                      in if \<not> (printable rid \<and> printable (nickname p'))
                         then (st2, e1, Throws TypeError)
                         else
                           let existingParticipants =
                                 map (\<lambda>i. (i, (case participants st2 i of
                                                  None \<Rightarrow> JStr ''Anonymous''
                                                | Some q \<Rightarrow> or_anonymous (nickname q))))
                                     (filter (\<lambda>i. i \<noteq> participantId) room')
                           in (st2,
                               e1 @ [ConsoleLog (JoinedRoom participantId rid (nickname p'))]
                                  @ sendMessage st2 (ws p) (RoomJoined rid participantId)
                                  @ broadcastToRoom st2 rid
                                      (ParticipantJoined participantId (nickname p'))
                                      (Some participantId)
                                  @ (if existingParticipants \<noteq> []
                                     then sendMessage st2 (ws p)
                                            (ExistingParticipants existingParticipants)
                                     else []),
                               Returns))"

text \<open>
  \<open>handleSignal\<close> formats \<open>to\<close> into \<open>`Signal target not found: ${to}`\<close> when no record is
  found for it. A \<open>to\<close> that has a record is a string.
\<close>

definition handleSignal :: "server \<Rightarrow> string \<Rightarrow> jsobject \<Rightarrow> outcome" where
  "handleSignal st participantId message =
     (let to = message ''to''; signal = message ''signal''
      in case participants_get st to of
           None \<Rightarrow>
             if printable to then (st, [ConsoleWarn (TargetNotFound to)], Returns)
             else (st, [], Throws TypeError)
         | Some targetParticipant \<Rightarrow>
             (st, sendMessage st (ws targetParticipant) (SignalMsg participantId signal)
                  @ [ConsoleLog (SignalForwarded participantId to)],
              Returns))"

text \<open>An exception of \<open>handleLeaveRoom\<close> leaves the participant's record in the map.\<close>

definition handleDisconnection :: "server \<Rightarrow> string \<Rightarrow> outcome" where
  "handleDisconnection st participantId =
     (let (st1, e1, c1) =
            (case participants st participantId of
               None \<Rightarrow> (st, [], Returns)
             | Some p \<Rightarrow>
                 if truthy (roomId p) then handleLeaveRoom st participantId
                 else (st, [], Returns))
      in case c1 of
           Throws err \<Rightarrow> (st1, e1, Throws err)
         | Returns \<Rightarrow>
             (st1\<lparr>participants := (participants st1)(participantId := None)\<rparr>, e1, Returns))"

text \<open>
  \<open>handleMessage\<close> reads \<open>message.type\<close> after it has found the participant; on \<open>null\<close>
  that read throws, before anything is logged or changed. The type is passed to the first
  \<open>console.log\<close> as an argument of its own, and formatted into
  \<open>`Unknown message type: ${message.type}`\<close> in the \<open>default\<close> branch, for \<open>console.warn\<close>
  first.
\<close>

definition handleMessage :: "server \<Rightarrow> string \<Rightarrow> parsed \<Rightarrow> outcome" where
  "handleMessage st participantId message =
     (case participants st participantId of
        None \<Rightarrow> (st, [], Returns)
      | Some p \<Rightarrow>
          (case message of
             PNull \<Rightarrow> (st, [], Throws TypeError)
           | PObject m \<Rightarrow>
               let ty = m ''type'';
                   (st', e, c) =
                     (if ty = JStr ''join-room'' then handleJoinRoom st participantId m
                      else if ty = JStr ''leave-room'' then handleLeaveRoom st participantId
                      else if ty = JStr ''signal'' then handleSignal st participantId m
                      else if printable ty
                      then (st, ConsoleWarn (UnknownType ty)
                                # sendError st (ws p) (UnknownMessageType ty),
                            Returns)
                      else (st, [], Throws TypeError))
               in (st', ConsoleLog (MessageFrom participantId ty) # e, c)))"

subsection \<open>Listeners installed by \<open>setupEventHandlers\<close>\<close>

text \<open>
  Each connection's listeners close over its socket \<open>w\<close> and the id \<open>participantId\<close>
  drawn for it. The \<open>try\<close> of the \<open>message\<close> listener covers \<open>JSON.parse\<close> and
  \<open>handleMessage\<close> alike: its \<open>catch\<close> logs and replies, on the directory as the handler
  left it. The \<open>close\<close> listener has no \<open>try\<close>.
\<close>

definition on_connection :: "server \<Rightarrow> string \<Rightarrow> nat \<Rightarrow> outcome" where
  "on_connection st participantId w =
     (let st' = st\<lparr>participants := (participants st)(participantId \<mapsto>
                    \<lparr>ws = w, roomId = JNull, nickname = JStr ''Anonymous''\<rparr>)\<rparr>
      in (st', ConsoleLog (NewConnection participantId)
               # sendMessage st' w (Connected participantId),
          Returns))"

definition on_message :: "server \<Rightarrow> nat \<Rightarrow> string \<Rightarrow> inbound \<Rightarrow> outcome" where
  "on_message st w participantId data =
     (case data of
        Unparseable \<Rightarrow>
          (st, ConsoleError ErrorParsing # sendError st w InvalidMessageFormat, Returns)
      | Parses message \<Rightarrow>
          (let (st', e, c) = handleMessage st participantId message
           in case c of
                Returns \<Rightarrow> (st', e, Returns)
              | Throws err \<Rightarrow>
                  (st', e @ ConsoleError ErrorParsing # sendError st' w InvalidMessageFormat,
                   Returns)))"

definition on_close :: "server \<Rightarrow> string \<Rightarrow> outcome" where
  "on_close st participantId =
     (let (st', e, c) = handleDisconnection st participantId
      in (st', ConsoleLog (ConnectionClosed participantId) # e, c))"

definition on_error :: "server \<Rightarrow> string \<Rightarrow> outcome" where
  "on_error st participantId = (st, [ConsoleError (WebSocketError participantId)], Returns)"

text \<open>
  The events the directory processes, each with the socket and the id its listener
  closed over. A socket is \<open>OPEN\<close> when \<open>connection\<close> fires for it and \<open>CLOSED\<close> when
  \<open>close\<close> does. \<open>SocketState\<close> is the network changing a socket's \<open>readyState\<close> in
  between; no listener runs for it.
\<close>

datatype event =
    Connection string nat
  | Message nat string inbound
  | Close nat string
  | SocketError string
  | SocketState nat ready_state

fun step :: "server \<Rightarrow> event \<Rightarrow> outcome" where
  "step st (Connection participantId w) =
     on_connection (st\<lparr>readyState := (readyState st)(w := OPEN)\<rparr>) participantId w"
| "step st (Message w participantId data) = on_message st w participantId data"
| "step st (Close w participantId) =
     on_close (st\<lparr>readyState := (readyState st)(w := CLOSED)\<rparr>) participantId"
| "step st (SocketError participantId) = on_error st participantId"
| "step st (SocketState w s) = (st\<lparr>readyState := (readyState st)(w := s)\<rparr>, [], Returns)"

text \<open>
  An exception that leaves a listener is caught by nobody: the process ends, and the
  events after it are not processed. \<open>run\<close> then gives the directory as it was at the
  throw.
\<close>

fun run :: "server \<Rightarrow> event list \<Rightarrow> outcome" where
  "run st [] = (st, [], Returns)"
| "run st (ev # evs) =
     (let (st1, e1, c1) = step st ev
      in case c1 of
           Throws err \<Rightarrow> (st1, e1, Throws err)
         | Returns \<Rightarrow> (let (st2, e2, c2) = run st1 evs in (st2, e1 @ e2, c2)))"

text \<open>
  \<open>uuidv4()\<close> draws an id no live participant has: \<open>fresh_ids st evs\<close> says so of every
  \<open>Connection\<close> event processed in the run \<open>evs\<close> from \<open>st\<close>.
\<close>

fun fresh_ids :: "server \<Rightarrow> event list \<Rightarrow> bool" where
  "fresh_ids st [] = True"
| "fresh_ids st (ev # evs) =
     ((case ev of Connection participantId w \<Rightarrow> participants st participantId = None
               | _ \<Rightarrow> True)
      \<and> (case step st ev of
           (st1, e1, Returns) \<Rightarrow> fresh_ids st1 evs
         | (st1, e1, Throws err) \<Rightarrow> True))"

text \<open>
  \<open>JSON.parse\<close> builds a new object at every call: the objects that arrive as \<open>roomId\<close> in
  the messages of a run have addresses different from one another.
\<close>

fun room_ref :: "event \<Rightarrow> nat list" where
  "room_ref (Message w participantId (Parses (PObject m))) =
     (case m ''roomId'' of JRef a ok \<Rightarrow> [a] | _ \<Rightarrow> [])"
| "room_ref ev = []"

definition room_refs :: "event list \<Rightarrow> nat list" where
  "room_refs evs = concat (map room_ref evs)"

definition fresh_objects :: "event list \<Rightarrow> bool" where
  "fresh_objects evs = distinct (room_refs evs)"

subsection \<open>Membership\<close>

text \<open>The participants whose \<open>roomId\<close> field is \<open>rid\<close>.\<close>

definition members :: "server \<Rightarrow> jsval \<Rightarrow> string set" where
  "members st rid = {pid. \<exists>p. participants st pid = Some p \<and> roomId p = rid}"

text \<open>The addresses of the objects that participants have as their \<open>roomId\<close>.\<close>

definition held :: "server \<Rightarrow> nat set" where
  "held st = {a. \<exists>pid p ok. participants st pid = Some p \<and> roomId p = JRef a ok}"

text \<open>
  What every handler keeps, whether it returns or throws: a room of the map has a truthy
  id and a non-empty \<open>Set\<close> that holds exactly the participants whose \<open>roomId\<close> names it,
  a room whose id cannot be formatted has one member, and the room a participant names
  exists when its id can be formatted.
\<close>

definition directory_inv :: "server \<Rightarrow> bool" where
  "directory_inv st \<longleftrightarrow>
     (\<forall>rid room. rooms st rid = Some room \<longrightarrow>
        truthy rid \<and> room \<noteq> [] \<and> distinct room \<and> set room = members st rid \<and>
        (\<not> printable rid \<longrightarrow> length room = 1)) \<and>
     (\<forall>pid p. participants st pid = Some p \<longrightarrow> truthy (roomId p) \<longrightarrow> printable (roomId p) \<longrightarrow>
        rooms st (roomId p) \<noteq> None)"

subsection \<open>Sample messages and sample runs\<close>

definition no_fields :: jsobject where
  "no_fields = (\<lambda>k. JUndefined)"

definition join_msg :: "string \<Rightarrow> string \<Rightarrow> jsobject" where
  "join_msg rid nick =
     no_fields(''type'' := JStr ''join-room'', ''roomId'' := JStr rid, ''nickname'' := JStr nick)"

definition leave_msg :: jsobject where
  "leave_msg = no_fields(''type'' := JStr ''leave-room'')"

definition signal_msg :: "string \<Rightarrow> jsval \<Rightarrow> jsobject" where
  "signal_msg target payload =
     no_fields(''type'' := JStr ''signal'', ''to'' := JStr target, ''signal'' := payload)"

definition fresh_server :: server where
  "fresh_server = init_server (\<lambda>w. CONNECTING)"

text \<open>P1 and P2 connect and join room r1, then P1 leaves.\<close>

definition demo_run :: "event list" where
  "demo_run =
     [Connection ''P1'' 1, Connection ''P2'' 2,
      Message 1 ''P1'' (Parses (PObject (join_msg ''r1'' ''Ann''))),
      Message 2 ''P2'' (Parses (PObject (join_msg ''r1'' ''Bob''))),
      Message 1 ''P1'' (Parses (PObject leave_msg))]"

text \<open>The directory after the sample run: P2 is alone in r1, P1 is in no room.\<close>

definition demo_final :: server where
  "demo_final = fst (run fresh_server demo_run)"

text \<open>The directory with P1 connected and nobody in a room.\<close>

definition one_connected :: server where
  "one_connected = fst (run fresh_server [Connection ''P1'' 1])"

text \<open>P1 is in r1 and its socket has started closing; P2 is connected.\<close>

definition closing_member :: server where
  "closing_member =
     fst (run fresh_server
       [Connection ''P1'' 1, Connection ''P2'' 2,
        Message 1 ''P1'' (Parses (PObject (join_msg ''r1'' ''Ann''))),
        SocketState 1 CLOSING])"

text \<open>\<open>{"type": "join-room"}\<close> and \<open>{"type": "ping"}\<close>.\<close>

definition join_without_room :: jsobject where
  "join_without_room = no_fields(''type'' := JStr ''join-room'')"

definition ping_msg :: jsobject where
  "ping_msg = no_fields(''type'' := JStr ''ping'')"

text \<open>
  The object that \<open>JSON.parse\<close> makes of \<open>{"toString": 1}\<close>, at address \<open>a\<close>: truthy, and
  not printable.
\<close>

definition toString_1 :: "nat \<Rightarrow> jsval" where
  "toString_1 a = JRef a False"

text \<open>
  \<open>{"type": "join-room", "roomId": {"toString": 1}}\<close>,
  \<open>{"type": "join-room", "roomId": "r1", "nickname": {"toString": 1}}\<close>,
  \<open>{"type": "signal", "to": {"toString": 1}, "signal": 0}\<close> and
  \<open>{"type": {"toString": 1}}\<close>.
\<close>

definition join_object_room :: jsobject where
  "join_object_room = no_fields(''type'' := JStr ''join-room'', ''roomId'' := toString_1 5)"

definition join_object_nickname :: jsobject where
  "join_object_nickname =
     no_fields(''type'' := JStr ''join-room'', ''roomId'' := JStr ''r1'',
               ''nickname'' := toString_1 5)"

definition signal_object_target :: jsobject where
  "signal_object_target =
     no_fields(''type'' := JStr ''signal'', ''to'' := toString_1 5, ''signal'' := JNum 0)"

definition object_type :: jsobject where
  "object_type = no_fields(''type'' := toString_1 5)"

text \<open>P1 connects and joins the room whose id is the object \<open>{"toString": 1}\<close>.\<close>

definition object_room_run :: "event list" where
  "object_room_run =
     [Connection ''P1'' 1, Message 1 ''P1'' (Parses (PObject join_object_room))]"

definition in_object_room :: server where
  "in_object_room = fst (run fresh_server object_room_run)"

text \<open>Then P1 sends \<open>leave-room\<close>.\<close>

definition after_failed_leave :: server where
  "after_failed_leave =
     fst (on_message in_object_room 1 ''P1'' (Parses (PObject leave_msg)))"

subsection \<open>Reading a handler's effects\<close>

text \<open>The \<open>participant-joined\<close> and the \<open>existing-participants\<close> messages among the effects.\<close>

fun is_joined_notice :: "effect \<Rightarrow> bool" where
  "is_joined_notice (Send w (ParticipantJoined i n)) = True"
| "is_joined_notice e = False"

fun is_roster :: "effect \<Rightarrow> bool" where
  "is_roster (Send w (ExistingParticipants ps)) = True"
| "is_roster e = False"

text \<open>
  One \<open>Send\<close> of \<open>msg\<close> to each listed participant that has a record and an open
  socket, in the order of the list.
\<close>

definition notices :: "server \<Rightarrow> server_msg \<Rightarrow> string list \<Rightarrow> effect list" where
  "notices st msg is =
     concat (map (\<lambda>i. case participants st i of
                          None \<Rightarrow> []
                        | Some q \<Rightarrow> if readyState st (ws q) = OPEN then [Send (ws q) msg] else []) is)"

text \<open>The roster entries \<open>{participantId, nickname}\<close> of the listed participants.\<close>

definition roster_of :: "server \<Rightarrow> string list \<Rightarrow> (string \<times> jsval) list" where
  "roster_of st is =
     map (\<lambda>i. (i, case participants st i of
                     None \<Rightarrow> JStr ''Anonymous''
                   | Some q \<Rightarrow> or_anonymous (nickname q))) is"
section \<open>Session Client: class \<open>SignalingClient\<close>\<close>

subsection \<open>State\<close>

text \<open>
  The fields of the class, and with them what the browser holds for it: the sockets
  \<open>new WebSocket\<close> has made so far with their \<open>readyState\<close> (a socket outlives the field
  \<open>ws\<close> that pointed to it, and keeps the listeners \<open>connect\<close> put on it), who called the
  \<open>connect\<close> that made each socket, the delays of the timers \<open>setTimeout\<close> has pending,
  and whether the constructor throws for this client's url.
\<close>

datatype caller = ByUser | ByTimer

record client =
  ws :: "nat option"
  reconnectAttempts :: nat
  maxReconnectAttempts :: nat
  reconnectDelay :: nat
  isConnecting :: bool
  isIntentionalClose :: bool
  sockets :: "nat \<rightharpoonup> ready_state"
  madeBy :: "nat \<rightharpoonup> caller"
  made :: nat
  timers :: "nat list"
  constructorThrows :: bool

definition init_client :: "bool \<Rightarrow> client" where
  "init_client throws =
     \<lparr>ws = None, reconnectAttempts = 0, maxReconnectAttempts = 5, reconnectDelay = 1000,
      isConnecting = False, isIntentionalClose = False,
      sockets = Map.empty, madeBy = Map.empty, made = 0, timers = [],
      constructorThrows = throws\<rparr>"

subsection \<open>What the client does to the outside\<close>

datatype reject_reason = AlreadyConnecting | ErrorEvent | ConstructorThrew

datatype handler_call =
    OnConnected
  | OnDisconnected
  | OnRoomJoined jsval jsval
  | OnRoomLeft jsval
  | OnParticipantJoined jsval jsval
  | OnParticipantLeft jsval
  | OnSignalReceived jsval jsval
  | OnExistingParticipants jsval
  | OnError jsval

datatype client_msg =
    JoinRoom string string       \<comment> \<open>roomId, nickname\<close>
  | LeaveRoom
  | Signal string jsval          \<comment> \<open>to, signal\<close>

datatype client_log =
    ConnectedToServer
  | DisconnectedFromServer
  | WebSocketErrorEvent
  | ErrorParsingMessage
  | CannotSend
  | ReceivedMessage jsval
  | ServerError jsval
  | UnknownSignalingType jsval
  | Reconnecting nat nat nat     \<comment> \<open>delay, attempt, maximum\<close>

text \<open>
  \<open>Resolve\<close> and \<open>Reject\<close> settle the promise of a \<open>connect\<close> call, named by who made the
  call: the timer's \<open>connect().catch\<close> only logs a rejection, the user's is the caller's
  to see. \<open>Call h\<close> is \<open>this.onXHandler?.(...)\<close>.
\<close>

datatype client_effect =
    Resolve caller
  | Reject caller reject_reason
  | NewWebSocket nat
  | WsSend nat client_msg
  | WsClose nat
  | SetTimeout nat
  | Call handler_call
  | CLog client_log
  | CWarn client_log
  | CError client_log

subsection \<open>Methods and listeners\<close>

definition scheduleReconnect :: "client \<Rightarrow> client \<times> client_effect list" where
  "scheduleReconnect c =
     (let c1 = c\<lparr>reconnectAttempts := reconnectAttempts c + 1\<rparr>;
          delay = reconnectDelay c1 * 2 ^ (reconnectAttempts c1 - 1)
      in (c1\<lparr>timers := timers c1 @ [delay]\<rparr>,
          [CLog (Reconnecting delay (reconnectAttempts c1) (maxReconnectAttempts c1)),
           SetTimeout delay]))"

text \<open>
  \<open>connect\<close>, up to the return of the promise. The socket made takes the next handle;
  its listeners are \<open>onopen\<close>, \<open>onmessage\<close>, \<open>onclose\<close> and \<open>onerror\<close> below.
\<close>

definition isConnected_client :: "client \<Rightarrow> bool" where
  "isConnected_client c = (case ws c of None \<Rightarrow> False | Some w \<Rightarrow> sockets c w = Some OPEN)"

definition connect :: "client \<Rightarrow> caller \<Rightarrow> client \<times> client_effect list" where
  "connect c who =
     (if (case ws c of None \<Rightarrow> False | Some w \<Rightarrow> sockets c w = Some OPEN)
      then (c, [Resolve who])
      else if isConnecting c then (c, [Reject who AlreadyConnecting])
      else
        let c1 = c\<lparr>isConnecting := True, isIntentionalClose := False\<rparr> in
        if constructorThrows c1
        then (c1\<lparr>isConnecting := False\<rparr>, [Reject who ConstructorThrew])
        else
          let w = made c1
          in (c1\<lparr>ws := Some w, sockets := (sockets c1)(w \<mapsto> CONNECTING),
                  madeBy := (madeBy c1)(w \<mapsto> who), made := w + 1\<rparr>,
              [NewWebSocket w]))"

text \<open>The listeners of the socket a \<open>connect\<close> call by \<open>who\<close> made.\<close>

definition onopen :: "client \<Rightarrow> caller \<Rightarrow> client \<times> client_effect list" where
  "onopen c who =
     (c\<lparr>isConnecting := False, reconnectAttempts := 0\<rparr>,
      [CLog ConnectedToServer, Call OnConnected, Resolve who])"

definition onclose :: "client \<Rightarrow> client \<times> client_effect list" where
  "onclose c =
     (let c1 = c\<lparr>isConnecting := False\<rparr>;
          e1 = [CLog DisconnectedFromServer, Call OnDisconnected]
      in if \<not> isIntentionalClose c1 \<and> reconnectAttempts c1 < maxReconnectAttempts c1
         then (let (c2, e2) = scheduleReconnect c1 in (c2, e1 @ e2))
         else (c1, e1))"

definition onerror :: "client \<Rightarrow> caller \<Rightarrow> client \<times> client_effect list" where
  "onerror c who =
     (c\<lparr>isConnecting := False\<rparr>, [CError WebSocketErrorEvent, Reject who ErrorEvent])"

definition handleMessage_client :: "jsobject \<Rightarrow> client_effect list" where
  "handleMessage_client message =
     (let ty = message ''type'' in
      CLog (ReceivedMessage ty) #
      (if ty = JStr ''connected'' then []
       else if ty = JStr ''room-joined''
         then [Call (OnRoomJoined (message ''roomId'') (message ''participantId''))]
       else if ty = JStr ''room-left'' then [Call (OnRoomLeft (message ''roomId''))]
       else if ty = JStr ''participant-joined''
         then [Call (OnParticipantJoined (message ''participantId'') (message ''nickname''))]
       else if ty = JStr ''participant-left''
         then [Call (OnParticipantLeft (message ''participantId''))]
       else if ty = JStr ''existing-participants''
         then [Call (OnExistingParticipants (message ''participants''))]
       else if ty = JStr ''signal''
         then [Call (OnSignalReceived (message ''from'') (message ''signal''))]
       else if ty = JStr ''error''
         then [CError (ServerError (message ''message'')), Call (OnError (message ''message''))]
       else [CWarn (UnknownSignalingType ty)]))"

definition onmessage :: "client \<Rightarrow> inbound \<Rightarrow> client \<times> client_effect list" where
  "onmessage c data =
     (case data of
        Unparseable \<Rightarrow> (c, [CError ErrorParsingMessage])
      | Parses PNull \<Rightarrow> (c, [CError ErrorParsingMessage])
      | Parses (PObject message) \<Rightarrow> (c, handleMessage_client message))"

text \<open>\<open>ws.close()\<close> starts the closing of a socket that is connecting or open.\<close>

definition close_socket :: "ready_state \<Rightarrow> ready_state" where
  "close_socket s = (case s of CONNECTING \<Rightarrow> CLOSING | OPEN \<Rightarrow> CLOSING | s' \<Rightarrow> s')"

definition disconnect :: "client \<Rightarrow> client \<times> client_effect list" where
  "disconnect c =
     (let c1 = c\<lparr>isIntentionalClose := True\<rparr>
      in case ws c1 of
           None \<Rightarrow> (c1, [])
         | Some w \<Rightarrow>
             (c1\<lparr>ws := None, sockets := (sockets c1)(w := map_option close_socket (sockets c1 w))\<rparr>,
              [WsClose w]))"

definition sendMessage_client :: "client \<Rightarrow> client_msg \<Rightarrow> client \<times> client_effect list" where
  "sendMessage_client c message =
     (case ws c of
        None \<Rightarrow> (c, [CWarn CannotSend])
      | Some w \<Rightarrow>
          if sockets c w = Some OPEN then (c, [WsSend w message]) else (c, [CWarn CannotSend]))"

definition joinRoom :: "client \<Rightarrow> string \<Rightarrow> string \<Rightarrow> client \<times> client_effect list" where
  "joinRoom c rid nick = sendMessage_client c (JoinRoom rid nick)"

definition leaveRoom :: "client \<Rightarrow> client \<times> client_effect list" where
  "leaveRoom c = sendMessage_client c LeaveRoom"

definition sendSignal :: "client \<Rightarrow> string \<Rightarrow> jsval \<Rightarrow> client \<times> client_effect list" where
  "sendSignal c to signal = sendMessage_client c (Signal to signal)"

subsection \<open>Events\<close>

text \<open>
  Calls by the user of the class, and what the browser does: a connecting socket opens,
  an open socket delivers a frame, a socket fails (\<open>error\<close>, with the socket closed) or
  closes, the \<open>k\<close>-th pending timer fires and runs \<open>this.connect()\<close>. An event for a
  socket that was never made, an \<open>open\<close> of a socket that is not connecting, a frame on a
  socket that is not open and a timer that is not pending do not happen: they change
  nothing.
\<close>

datatype client_event =
    CallConnect
  | CallDisconnect
  | CallJoinRoom string string
  | CallLeaveRoom
  | CallSendSignal string jsval
  | SocketOpens nat
  | SocketMessage nat inbound
  | SocketErrors nat
  | SocketCloses nat
  | TimerFires nat

fun client_step :: "client \<Rightarrow> client_event \<Rightarrow> client \<times> client_effect list" where
  "client_step c CallConnect = connect c ByUser"
| "client_step c CallDisconnect = disconnect c"
| "client_step c (CallJoinRoom rid nick) = joinRoom c rid nick"
| "client_step c CallLeaveRoom = leaveRoom c"
| "client_step c (CallSendSignal to signal) = sendSignal c to signal"
| "client_step c (SocketOpens w) =
     (case (sockets c w, madeBy c w) of
        (Some CONNECTING, Some who) \<Rightarrow> onopen (c\<lparr>sockets := (sockets c)(w \<mapsto> OPEN)\<rparr>) who
      | _ \<Rightarrow> (c, []))"
| "client_step c (SocketMessage w data) =
     (if sockets c w = Some OPEN then onmessage c data else (c, []))"
| "client_step c (SocketErrors w) =
     (case (sockets c w, madeBy c w) of
        (Some s, Some who) \<Rightarrow> onerror (c\<lparr>sockets := (sockets c)(w \<mapsto> CLOSED)\<rparr>) who
      | _ \<Rightarrow> (c, []))"
| "client_step c (SocketCloses w) =
     (case sockets c w of
        Some s \<Rightarrow> onclose (c\<lparr>sockets := (sockets c)(w \<mapsto> CLOSED)\<rparr>)
      | None \<Rightarrow> (c, []))"
| "client_step c (TimerFires k) =
     (if k < length (timers c)
      then connect (c\<lparr>timers := take k (timers c) @ drop (Suc k) (timers c)\<rparr>) ByTimer
      else (c, []))"

fun run_client :: "client \<Rightarrow> client_event list \<Rightarrow> client \<times> client_effect list" where
  "run_client c [] = (c, [])"
| "run_client c (ev # evs) =
     (let (c1, e1) = client_step c ev; (c2, e2) = run_client c1 evs in (c2, e1 @ e2))"

subsection \<open>Reading a run\<close>

text \<open>The effects that start a connection attempt or schedule one.\<close>

fun is_retry :: "client_effect \<Rightarrow> bool" where
  "is_retry (SetTimeout d) = True"
| "is_retry (NewWebSocket w) = True"
| "is_retry e = False"

text \<open>The events that are not calls by the user of the class.\<close>

fun by_browser :: "client_event \<Rightarrow> bool" where
  "by_browser (SocketOpens w) = True"
| "by_browser (SocketMessage w data) = True"
| "by_browser (SocketErrors w) = True"
| "by_browser (SocketCloses w) = True"
| "by_browser (TimerFires k) = True"
| "by_browser ev = False"

text \<open>
  The attempts are used up, no timer is pending and none of the sockets made is still
  connecting.
\<close>

definition retries_exhausted :: "client \<Rightarrow> bool" where
  "retries_exhausted c \<longleftrightarrow>
     maxReconnectAttempts c \<le> reconnectAttempts c \<and> timers c = [] \<and>
     list_all (\<lambda>w. sockets c w \<noteq> Some CONNECTING) [0..<made c]"

text \<open>
  A first connection that opens and is lost, then reconnections, each made by the timer
  and each failing (the socket errors and closes): four of them up to the fourth
  socket's error, and five up to the fifth socket's error.
\<close>

definition four_failed_run :: "client_event list" where
  "four_failed_run =
     [CallConnect, SocketOpens 0, SocketCloses 0,
      TimerFires 0, SocketErrors 1, SocketCloses 1,
      TimerFires 0, SocketErrors 2, SocketCloses 2,
      TimerFires 0, SocketErrors 3, SocketCloses 3,
      TimerFires 0, SocketErrors 4]"

definition lost_and_failed :: "client_event list" where
  "lost_and_failed = four_failed_run @ [SocketCloses 4, TimerFires 0, SocketErrors 5]"

definition four_failed :: client where
  "four_failed = fst (run_client (init_client False) four_failed_run)"

definition all_failed :: client where
  "all_failed = fst (run_client (init_client False) lost_and_failed)"

text \<open>
  The user disconnects and connects again at once, and the old socket's \<open>close\<close>
  arrives while the new socket is still connecting.
\<close>

definition stale_close_run :: "client_event list" where
  "stale_close_run = [CallConnect, SocketOpens 0, CallDisconnect, CallConnect, SocketCloses 0]"

definition stale_close :: client where
  "stale_close = fst (run_client (init_client False) stale_close_run)"

text \<open>
  Then the timer set by that \<open>close\<close> fires before the new socket has opened, and both
  connecting sockets open.
\<close>

definition two_transports :: client where
  "two_transports =
     fst (run_client stale_close [TimerFires 0, SocketOpens 1, SocketOpens 2])"

subsection \<open>What every step keeps\<close>

text \<open>No socket has a handle that was not given out yet.\<close>

definition handles_ok :: "client \<Rightarrow> bool" where
  "handles_ok c \<longleftrightarrow> (\<forall>w. made c \<le> w \<longrightarrow> sockets c w = None)"

text \<open>The two fields no method assigns keep their initial values.\<close>

definition constants_ok :: "client \<Rightarrow> bool" where
  "constants_ok c \<longleftrightarrow> maxReconnectAttempts c = 5 \<and> reconnectDelay c = 1000"

section \<open>Peer Connection Orchestrator: class \<open>WebRTCManager\<close>\<close>

subsection \<open>JavaScript \<open>Map\<close>s\<close>

text \<open>
  A \<open>Map\<close> is its list of entries in insertion order, one entry per key: \<open>set\<close> on a
  key that is present replaces the value in place, on a new key it appends; \<open>forEach\<close>
  visits the entries in list order.
\<close>

definition js_map_get :: "(string \<times> 'v) list \<Rightarrow> string \<Rightarrow> 'v option" where
  "js_map_get entries k = map_of entries k"

definition js_map_set :: "(string \<times> 'v) list \<Rightarrow> string \<Rightarrow> 'v \<Rightarrow> (string \<times> 'v) list" where
  "js_map_set entries k v =
     (if k \<in> fst ` set entries
      then map (\<lambda>(k', v'). if k' = k then (k', v) else (k', v')) entries
      else entries @ [(k, v)])"

definition js_map_delete :: "(string \<times> 'v) list \<Rightarrow> string \<Rightarrow> (string \<times> 'v) list" where
  "js_map_delete entries k = filter (\<lambda>(k', v'). k' \<noteq> k) entries"

subsection \<open>State\<close>

text \<open>The interface \<open>PeerConnection\<close>; \<open>peer\<close> and \<open>stream\<close> are handles of browser objects.\<close>

record peer_connection =
  id' :: string
  peer :: nat
  stream :: "nat option"
  isConnected :: bool
  isInitiator :: bool
  createdAt :: nat

text \<open>
  The manager's two fields, the store its objects live in, and its \<open>AudioManager\<close>.
  \<open>connections\<close> is the address of a \<open>Map\<close> object; \<open>maps\<close> holds the entries of every
  \<open>Map\<close> object, each entry pairing a peer id with the address of a \<open>PeerConnection\<close>
  object; \<open>objects\<close> holds the \<open>PeerConnection\<close> objects, which the listeners of their
  peers keep mutating; \<open>allocated\<close> is the next free address. \<open>remoteStreams\<close>,
  \<open>localStream\<close> and \<open>audioInitialized\<close> are the audio manager's fields.
\<close>

record manager =
  connections :: nat
  isInitialized :: bool
  maps :: "nat \<Rightarrow> (string \<times> nat) list"
  objects :: "nat \<Rightarrow> peer_connection"
  allocated :: nat
  remoteStreams :: "(string \<times> nat) list"
  localStream :: "nat option"
  audioInitialized :: bool

definition no_connection :: peer_connection where
  "no_connection =
     \<lparr>id' = [], peer = 0, stream = None, isConnected = False, isInitiator = False,
      createdAt = 0\<rparr>"

text \<open>A new manager: its \<open>Map\<close> is the object at address 0 and is empty.\<close>

definition init_manager :: "nat option \<Rightarrow> manager" where
  "init_manager mic =
     \<lparr>connections = 0, isInitialized = False, maps = (\<lambda>a. []),
      objects = (\<lambda>a. no_connection), allocated = 1, remoteStreams = [],
      localStream = mic, audioInitialized = False\<rparr>"

subsection \<open>Effects and results\<close>

datatype control_msg =
    MuteStatus bool nat        \<comment> \<open>isMuted, timestamp\<close>
  | AudioLevel int nat         \<comment> \<open>level, timestamp\<close>
  | OtherMsg jsval

datatype rtc_error =
    NotInitialized
  | NoLocalStream
  | PeerConstructorThrew
  | AudioInitFailed

datatype rtc_log =
    ManagerInitialized
  | InitializeFailed
  | CreatedConnection string bool
  | CreateFailed string
  | SendingSignal string
  | Established string
  | ReceivedStream string
  | ReceivedData string
  | DataParseFailed
  | ConnectionClosedWith string
  | PeerError string
  | NoConnectionFor string
  | ProcessingSignal string
  | HandleSignalFailed string
  | PeerMute string jsval
  | PeerLevel string jsval
  | UnknownData string
  | CannotSendTo string
  | SentTo string
  | SendFailed string
  | ClosedConnection string
  | AllClosed
  | CleanedUp
  | AddedStream string
  | RemovedStream string

datatype rtc_effect =
    NewSimplePeer nat bool nat            \<comment> \<open>peer, initiator, local stream\<close>
  | PeerDestroy nat
  | PeerSignal nat jsval
  | PeerSend nat control_msg
  | StopTracks nat
  | OnSignal string string jsval          \<comment> \<open>to, callId, signal\<close>
  | OnStreamReceived string nat
  | OnConnectionStateChange string string
  | RLog rtc_log
  | RWarn rtc_log
  | RError rtc_log

datatype rtc_result =
    Returned
  | Threw rtc_error
  | ReturnedConnection "nat option"
  | ReturnedMap nat
  | ReturnedNumber nat
  | ReturnedBool bool

subsection \<open>The audio manager's part\<close>

definition addRemoteStream :: "manager \<Rightarrow> string \<Rightarrow> nat \<Rightarrow> manager \<times> rtc_effect list" where
  "addRemoteStream m peerId s =
     (m\<lparr>remoteStreams := js_map_set (remoteStreams m) peerId s\<rparr>, [RLog (AddedStream peerId)])"

definition removeRemoteStream :: "manager \<Rightarrow> string \<Rightarrow> manager \<times> rtc_effect list" where
  "removeRemoteStream m peerId =
     (case js_map_get (remoteStreams m) peerId of
        None \<Rightarrow> (m, [])
      | Some s \<Rightarrow>
          (m\<lparr>remoteStreams := js_map_delete (remoteStreams m) peerId\<rparr>,
           [StopTracks s, RLog (RemovedStream peerId)]))"

subsection \<open>Methods\<close>

text \<open>
  \<open>initialize\<close>: \<open>ok\<close> says whether the audio manager's own initialisation, when it has
  to run, succeeds.
\<close>

definition initialize :: "manager \<Rightarrow> bool \<Rightarrow> manager \<times> rtc_result \<times> rtc_effect list" where
  "initialize m ok =
     (if isInitialized m then (m, Returned, [])
      else if audioInitialized m \<or> ok
      then (m\<lparr>isInitialized := True, audioInitialized := True\<rparr>, Returned,
            [RLog ManagerInitialized])
      else (m, Threw AudioInitFailed, [RError InitializeFailed]))"

text \<open>
  \<open>createConnection\<close>: \<open>ctor_ok\<close> says whether \<open>new SimplePeer\<close> returns, \<open>now\<close> is
  \<open>new Date()\<close>. The peer takes the next free address and the \<open>PeerConnection\<close> object
  the one after.
\<close>

definition createConnection ::
  "manager \<Rightarrow> string \<Rightarrow> bool \<Rightarrow> bool \<Rightarrow> nat \<Rightarrow> manager \<times> rtc_result \<times> rtc_effect list" where
  "createConnection m peerId initiator ctor_ok now =
     (if \<not> isInitialized m then (m, Threw NotInitialized, [])
      else case localStream m of
             None \<Rightarrow> (m, Threw NoLocalStream, [RError (CreateFailed peerId)])
           | Some ls \<Rightarrow>
               if \<not> ctor_ok then (m, Threw PeerConstructorThrew, [RError (CreateFailed peerId)])
               else
                 let p = allocated m; a = allocated m + 1;
                     connection = \<lparr>id' = peerId, peer = p, stream = None, isConnected = False,
                                   isInitiator = initiator, createdAt = now\<rparr>
                 in (m\<lparr>objects := (objects m)(a := connection),
                       maps := (maps m)(connections m :=
                                 js_map_set (maps m (connections m)) peerId a),
                       allocated := allocated m + 2\<rparr>,
                     Returned,
                     [NewSimplePeer p initiator ls, RLog (CreatedConnection peerId initiator)]))"

text \<open>
  \<open>handleSignal\<close>: \<open>throws\<close> says whether \<open>peer.signal\<close> throws on this call. The
  handler reads \<open>signal.type\<close> for its console line first: on \<open>undefined\<close> and \<open>null\<close>
  that read throws, before the line is printed.
\<close>

definition handleSignal_rtc ::
  "manager \<Rightarrow> string \<Rightarrow> jsval \<Rightarrow> bool \<Rightarrow> manager \<times> rtc_result \<times> rtc_effect list" where
  "handleSignal_rtc m peerId signal throws =
     (case js_map_get (maps m (connections m)) peerId of
        None \<Rightarrow> (m, Returned, [RWarn (NoConnectionFor peerId)])
      | Some a \<Rightarrow>
          let p = peer (objects m a) in
          if signal = JUndefined \<or> signal = JNull
          then (m, Returned, [RError (HandleSignalFailed peerId)])
          else if throws
          then (m, Returned, [RLog (ProcessingSignal peerId), RError (HandleSignalFailed peerId)])
          else (m, Returned, [RLog (ProcessingSignal peerId), PeerSignal p signal]))"

text \<open>
  \<open>sendDataChannelMessage\<close>: \<open>throws\<close> says whether \<open>JSON.stringify\<close> or \<open>peer.send\<close>
  throws on this call. After the send the handler reads \<open>message.type\<close> for its console
  line: on \<open>undefined\<close> and \<open>null\<close> that read throws, and the \<open>catch\<close> logs a failure.
\<close>

definition sendDataChannelMessage ::
  "manager \<Rightarrow> string \<Rightarrow> control_msg \<Rightarrow> bool \<Rightarrow> manager \<times> rtc_result \<times> rtc_effect list" where
  "sendDataChannelMessage m peerId message throws =
     (case js_map_get (maps m (connections m)) peerId of
        None \<Rightarrow> (m, Returned, [RWarn (CannotSendTo peerId)])
      | Some a \<Rightarrow>
          if \<not> isConnected (objects m a) then (m, Returned, [RWarn (CannotSendTo peerId)])
          else
            let p = peer (objects m a) in
            if throws then (m, Returned, [RError (SendFailed peerId)])
            else if message = OtherMsg JUndefined \<or> message = OtherMsg JNull
            then (m, Returned, [PeerSend p message, RError (SendFailed peerId)])
            else (m, Returned, [PeerSend p message, RLog (SentTo peerId)]))"

text \<open>
  The two broadcasts: \<open>forEach\<close> over the entries; \<open>sendDataChannelMessage\<close> changes no
  state, so the loop collects its effects. \<open>failing\<close> lists the peers on which
  \<open>peer.send\<close> throws during the loop, \<open>now\<close> is \<open>Date.now()\<close>.
\<close>

definition broadcast :: "manager \<Rightarrow> control_msg \<Rightarrow> nat list \<Rightarrow> rtc_effect list" where
  "broadcast m message failing =
     concat (map (\<lambda>(peerId, a).
                    if isConnected (objects m a)
                    then snd (snd (sendDataChannelMessage m peerId message
                                     (peer (objects m a) \<in> set failing)))
                    else [])
                 (maps m (connections m)))"

definition broadcastMuteStatus ::
  "manager \<Rightarrow> bool \<Rightarrow> nat \<Rightarrow> nat list \<Rightarrow> manager \<times> rtc_result \<times> rtc_effect list" where
  "broadcastMuteStatus m isMuted now failing =
     (m, Returned, broadcast m (MuteStatus isMuted now) failing)"

definition broadcastAudioLevel ::
  "manager \<Rightarrow> int \<Rightarrow> nat \<Rightarrow> nat list \<Rightarrow> manager \<times> rtc_result \<times> rtc_effect list" where
  "broadcastAudioLevel m level now failing =
     (m, Returned, broadcast m (AudioLevel level now) failing)"

definition closeConnection :: "manager \<Rightarrow> string \<Rightarrow> manager \<times> rtc_effect list" where
  "closeConnection m peerId =
     (case js_map_get (maps m (connections m)) peerId of
        None \<Rightarrow> (m, [])
      | Some a \<Rightarrow>
          let m1 = m\<lparr>maps := (maps m)(connections m :=
                          js_map_delete (maps m (connections m)) peerId)\<rparr>;
              (m2, e2) = removeRemoteStream m1 peerId
          in (m2, PeerDestroy (peer (objects m a)) # e2 @ [RLog (ClosedConnection peerId)]))"

definition getConnection :: "manager \<Rightarrow> string \<Rightarrow> nat option" where
  "getConnection m peerId = js_map_get (maps m (connections m)) peerId"

text \<open>\<open>new Map(this.connections)\<close>: a new \<open>Map\<close> object with the same entries.\<close>

definition getAllConnections :: "manager \<Rightarrow> manager \<times> nat" where
  "getAllConnections m =
     (m\<lparr>maps := (maps m)(allocated m := maps m (connections m)),
        allocated := allocated m + 1\<rparr>,
      allocated m)"

definition getConnectedPeerCount :: "manager \<Rightarrow> nat" where
  "getConnectedPeerCount m =
     length (filter (\<lambda>(peerId, a). isConnected (objects m a)) (maps m (connections m)))"

definition hasActiveConnections :: "manager \<Rightarrow> bool" where
  "hasActiveConnections m \<longleftrightarrow> getConnectedPeerCount m > 0"

fun close_each :: "manager \<Rightarrow> (string \<times> nat) list \<Rightarrow> manager \<times> rtc_effect list" where
  "close_each m [] = (m, [])"
| "close_each m ((peerId, a) # rest) =
     (let (m1, e1) = removeRemoteStream m peerId;
          (m2, e2) = close_each m1 rest
      in (m2, PeerDestroy (peer (objects m a)) # e1 @ e2))"

definition closeAllConnections :: "manager \<Rightarrow> manager \<times> rtc_effect list" where
  "closeAllConnections m =
     (let (m1, e1) = close_each m (maps m (connections m))
      in (m1\<lparr>maps := (maps m1)(connections m1 := [])\<rparr>, e1 @ [RLog AllClosed]))"

definition cleanup :: "manager \<Rightarrow> manager \<times> rtc_effect list" where
  "cleanup m =
     (let (m1, e1) = closeAllConnections m
      in (m1\<lparr>isInitialized := False\<rparr>, e1 @ [RLog CleanedUp]))"

subsection \<open>Listeners of a peer\<close>

text \<open>
  \<open>setupPeerEventListeners\<close> closes over the \<open>PeerConnection\<close> object, here its
  address \<open>a\<close>, and over \<open>callId\<close>; the peer id it took from the object never changes.
\<close>

text \<open>
  \<open>handleDataChannelMessage\<close> formats \<open>message.isMuted\<close> and \<open>message.level\<close> into its
  console lines with template literals; when that throws, the \<open>catch\<close> of the \<open>data\<close>
  listener logs a parse failure.
\<close>

definition handleDataChannelMessage ::
  "string \<Rightarrow> jsobject \<Rightarrow> rtc_effect list \<times> completion" where
  "handleDataChannelMessage peerId message =
     (if message ''type'' = JStr ''mute-status''
      then (if printable (message ''isMuted'')
            then ([RLog (PeerMute peerId (message ''isMuted''))], Returns)
            else ([], Throws TypeError))
      else if message ''type'' = JStr ''audio-level''
      then (if printable (message ''level'')
            then ([RLog (PeerLevel peerId (message ''level''))], Returns)
            else ([], Throws TypeError))
      else ([RLog (UnknownData peerId)], Returns))"

text \<open>
  The \<open>signal\<close> listener reads \<open>data.type\<close> first: on \<open>undefined\<close> and \<open>null\<close> that read
  throws, and nothing is logged or called.
\<close>

definition on_peer_signal :: "manager \<Rightarrow> nat \<Rightarrow> string \<Rightarrow> jsval \<Rightarrow> manager \<times> rtc_effect list" where
  "on_peer_signal m a callId data =
     (let peerId = id' (objects m a)
      in if data = JUndefined \<or> data = JNull then (m, [])
         else (m, [RLog (SendingSignal peerId), OnSignal peerId callId data]))"

definition on_peer_connect :: "manager \<Rightarrow> nat \<Rightarrow> manager \<times> rtc_effect list" where
  "on_peer_connect m a =
     (let peerId = id' (objects m a)
      in (m\<lparr>objects := (objects m)(a := (objects m a)\<lparr>isConnected := True\<rparr>)\<rparr>,
          [RLog (Established peerId), OnConnectionStateChange peerId ''connected'']))"

definition on_peer_stream :: "manager \<Rightarrow> nat \<Rightarrow> nat \<Rightarrow> manager \<times> rtc_effect list" where
  "on_peer_stream m a s =
     (let peerId = id' (objects m a);
          m1 = m\<lparr>objects := (objects m)(a := (objects m a)\<lparr>stream := Some s\<rparr>)\<rparr>;
          (m2, e2) = addRemoteStream m1 peerId s
      in (m2, RLog (ReceivedStream peerId) # e2 @ [OnStreamReceived peerId s]))"

definition on_peer_data :: "manager \<Rightarrow> nat \<Rightarrow> inbound \<Rightarrow> manager \<times> rtc_effect list" where
  "on_peer_data m a data =
     (let peerId = id' (objects m a)
      in case data of
           Unparseable \<Rightarrow> (m, [RError DataParseFailed])
         | Parses PNull \<Rightarrow> (m, [RLog (ReceivedData peerId), RError DataParseFailed])
         | Parses (PObject message) \<Rightarrow>
             (let (e, c) = handleDataChannelMessage peerId message
              in (m, RLog (ReceivedData peerId) # e @
                     (case c of Returns \<Rightarrow> [] | Throws err \<Rightarrow> [RError DataParseFailed]))))"

definition on_peer_close :: "manager \<Rightarrow> nat \<Rightarrow> manager \<times> rtc_effect list" where
  "on_peer_close m a =
     (let peerId = id' (objects m a);
          m1 = m\<lparr>objects := (objects m)(a := (objects m a)\<lparr>isConnected := False\<rparr>)\<rparr>;
          (m2, e2) = removeRemoteStream m1 peerId
      in (m2, [RLog (ConnectionClosedWith peerId),
               OnConnectionStateChange peerId ''disconnected''] @ e2))"

definition on_peer_error :: "manager \<Rightarrow> nat \<Rightarrow> manager \<times> rtc_effect list" where
  "on_peer_error m a =
     (let peerId = id' (objects m a)
      in (m, [RError (PeerError peerId), OnConnectionStateChange peerId ''error'']))"

subsection \<open>Operations\<close>

text \<open>
  Every public method of the class with its arguments (and what the environment decides
  for the call), and every event a peer can fire at the listeners of the
  \<open>PeerConnection\<close> object at an address.
\<close>

datatype rtc_op =
    Initialize bool
  | CreateConnection string bool bool nat
  | HandleSignal string jsval bool
  | SendDataChannelMessage string control_msg bool
  | BroadcastMuteStatus bool nat "nat list"
  | BroadcastAudioLevel int nat "nat list"
  | CloseConnection string
  | GetConnection string
  | GetAllConnections
  | GetConnectedPeerCount
  | HasActiveConnections
  | CloseAllConnections
  | Cleanup
  | PeerSignals nat string jsval
  | PeerConnects nat
  | PeerStreams nat nat
  | PeerData nat inbound
  | PeerCloses nat
  | PeerErrors nat

fun rtc_do :: "manager \<Rightarrow> rtc_op \<Rightarrow> manager \<times> rtc_result \<times> rtc_effect list" where
  "rtc_do m (Initialize ok) = initialize m ok"
| "rtc_do m (CreateConnection peerId initiator ctor_ok now) =
     createConnection m peerId initiator ctor_ok now"
| "rtc_do m (HandleSignal peerId signal throws) = handleSignal_rtc m peerId signal throws"
| "rtc_do m (SendDataChannelMessage peerId message throws) =
     sendDataChannelMessage m peerId message throws"
| "rtc_do m (BroadcastMuteStatus isMuted now failing) = broadcastMuteStatus m isMuted now failing"
| "rtc_do m (BroadcastAudioLevel level now failing) = broadcastAudioLevel m level now failing"
| "rtc_do m (CloseConnection peerId) =
     (let (m', e) = closeConnection m peerId in (m', Returned, e))"
| "rtc_do m (GetConnection peerId) = (m, ReturnedConnection (getConnection m peerId), [])"
| "rtc_do m GetAllConnections = (let (m', r) = getAllConnections m in (m', ReturnedMap r, []))"
| "rtc_do m GetConnectedPeerCount = (m, ReturnedNumber (getConnectedPeerCount m), [])"
| "rtc_do m HasActiveConnections = (m, ReturnedBool (hasActiveConnections m), [])"
| "rtc_do m CloseAllConnections = (let (m', e) = closeAllConnections m in (m', Returned, e))"
| "rtc_do m Cleanup = (let (m', e) = cleanup m in (m', Returned, e))"
| "rtc_do m (PeerSignals a callId data) =
     (let (m', e) = on_peer_signal m a callId data in (m', Returned, e))"
| "rtc_do m (PeerConnects a) = (let (m', e) = on_peer_connect m a in (m', Returned, e))"
| "rtc_do m (PeerStreams a s) = (let (m', e) = on_peer_stream m a s in (m', Returned, e))"
| "rtc_do m (PeerData a data) = (let (m', e) = on_peer_data m a data in (m', Returned, e))"
| "rtc_do m (PeerCloses a) = (let (m', e) = on_peer_close m a in (m', Returned, e))"
| "rtc_do m (PeerErrors a) = (let (m', e) = on_peer_error m a in (m', Returned, e))"

text \<open>A sequence of operations: the final state and what each operation gave.\<close>

fun rtc_run :: "manager \<Rightarrow> rtc_op list \<Rightarrow> manager \<times> (rtc_result \<times> rtc_effect list) list" where
  "rtc_run m [] = (m, [])"
| "rtc_run m (op # ops) =
     (let (m1, out) = rtc_do m op; (m2, outs) = rtc_run m1 ops in (m2, out # outs))"

subsection \<open>What a caller can do to a \<open>Map\<close> it holds\<close>

datatype map_edit = MapSet string nat | MapDelete string | MapClear

fun edited :: "(string \<times> nat) list \<Rightarrow> map_edit \<Rightarrow> (string \<times> nat) list" where
  "edited entries (MapSet k v) = js_map_set entries k v"
| "edited entries (MapDelete k) = js_map_delete entries k"
| "edited entries MapClear = []"

text \<open>The edits applied, in order, to the \<open>Map\<close> object at address \<open>r\<close>.\<close>

definition edit_map :: "manager \<Rightarrow> nat \<Rightarrow> map_edit list \<Rightarrow> manager" where
  "edit_map m r edits = m\<lparr>maps := (maps m)(r := foldl edited (maps m r) edits)\<rparr>"

subsection \<open>Sample states\<close>

text \<open>
  An initialised manager with a connection to bob, connected and with a remote stream,
  and one to carol that is still negotiating.
\<close>

definition two_peers :: manager where
  "two_peers =
     fst (rtc_run (init_manager (Some 9))
       [Initialize True, CreateConnection ''bob'' True True 100,
        CreateConnection ''carol'' False True 200, PeerConnects 2, PeerStreams 2 50])"

text \<open>A caller's edits of a \<open>Map\<close> it was handed, and operations to run afterwards.\<close>

definition sample_edits :: "map_edit list" where
  "sample_edits = [MapDelete ''bob'', MapSet ''eve'' 7]"

definition sample_ops :: "rtc_op list" where
  "sample_ops =
     [GetConnection ''bob'', BroadcastMuteStatus True 300 [], GetConnectedPeerCount,
      CloseConnection ''bob'']"

subsection \<open>What every operation keeps\<close>

text \<open>The manager's own \<open>Map\<close> is an object that has been allocated.\<close>

definition alloc_ok :: "manager \<Rightarrow> bool" where
  "alloc_ok m \<longleftrightarrow> connections m < allocated m"

section \<open>Properties of the Room Directory\<close>

subsection \<open>Unfolding sets for evaluation\<close>

lemmas server_defs = init_server_def on_connection_def on_message_def on_close_def on_error_def
  handleMessage_def handleJoinRoom_def handleLeaveRoom_def handleSignal_def handleDisconnection_def
  broadcastToRoom_def sendMessage_def sendError_def set_add_def set_delete_def or_anonymous_def
  participants_get_def Let_def

lemmas demo_defs = demo_run_def fresh_server_def join_msg_def leave_msg_def signal_msg_def no_fields_def

lemmas object_defs = object_room_run_def join_object_room_def join_object_nickname_def
  signal_object_target_def object_type_def toString_1_def

subsection \<open>How the handlers end, and the directory they leave\<close>

lemma leave_completion:
  "snd (snd (handleLeaveRoom st pid)) =
     (case participants st pid of None \<Rightarrow> Returns
      | Some p \<Rightarrow> if truthy (roomId p) \<and> \<not> printable (roomId p) then Throws TypeError else Returns)"
  by (auto simp: handleLeaveRoom_def Let_def split: option.splits)

lemma leave_state:
  "fst (handleLeaveRoom st pid) =
     (case participants st pid of None \<Rightarrow> st
      | Some p \<Rightarrow> if \<not> truthy (roomId p) then st else
          let st1 = st\<lparr>rooms := (case rooms st (roomId p) of None \<Rightarrow> rooms st
                 | Some room \<Rightarrow> if set_delete room pid = [] then (rooms st)(roomId p := None)
                                else (rooms st)(roomId p \<mapsto> set_delete room pid))\<rparr>
          in if printable (roomId p)
             then st1\<lparr>participants := (participants st1)(pid \<mapsto> p\<lparr>roomId := JNull\<rparr>)\<rparr>
             else st1)"
  by (auto simp: handleLeaveRoom_def Let_def split: option.splits)

lemma leave_participant:
  "participants st pid = Some p \<Longrightarrow> truthy (roomId p) \<Longrightarrow> printable (roomId p) \<Longrightarrow>
   participants (fst (handleLeaveRoom st pid)) = (participants st)(pid \<mapsto> p\<lparr>roomId := JNull\<rparr>)"
  unfolding leave_state by (simp add: Let_def)

lemma leave_participant_thrown:
  "participants st pid = Some p \<Longrightarrow> \<not> printable (roomId p) \<Longrightarrow>
   participants (fst (handleLeaveRoom st pid)) = participants st"
  unfolding leave_state by (simp add: Let_def)

lemma falsy_printable: "\<not> truthy v \<Longrightarrow> printable v"
  by (cases v) auto

lemma join_completion:
  "snd (snd (handleJoinRoom st pid m)) =
     (case participants st pid of None \<Rightarrow> Returns
      | Some p \<Rightarrow>
          if truthy (m ''roomId'') \<and>
             ((truthy (roomId p) \<and> \<not> printable (roomId p)) \<or> \<not> printable (m ''roomId'') \<or>
              \<not> printable (m ''nickname''))
          then Throws TypeError else Returns)"
  using falsy_printable[of "m ''nickname''"]
  by (auto simp: handleJoinRoom_def Let_def case_prod_beta leave_completion or_anonymous_def
           split: option.splits)

lemma join_state:
  "fst (handleJoinRoom st pid m) =
     (case participants st pid of None \<Rightarrow> st
      | Some p \<Rightarrow> if \<not> truthy (m ''roomId'') then st
         else if truthy (roomId p) \<and> \<not> printable (roomId p) then fst (handleLeaveRoom st pid)
         else
         let st1 = (if truthy (roomId p) then fst (handleLeaveRoom st pid) else st) in
          st1\<lparr>rooms := (rooms st1)(m ''roomId'' \<mapsto> set_add (case rooms st1 (m ''roomId'') of None \<Rightarrow> [] | Some r \<Rightarrow> r) pid),
             participants := (participants st1)(pid \<mapsto> p\<lparr>roomId := m ''roomId'', nickname := or_anonymous (m ''nickname'')\<rparr>)\<rparr>)"
  by (auto simp: handleJoinRoom_def Let_def case_prod_beta leave_completion
           split: option.splits)

lemma signal_state: "fst (handleSignal st pid m) = st"
  by (simp add: handleSignal_def Let_def split: option.splits)

lemma disconnection_state:
  "fst (handleDisconnection st pid) =
     (case participants st pid of
        None \<Rightarrow> st\<lparr>participants := (participants st)(pid := None)\<rparr>
      | Some p \<Rightarrow>
          if truthy (roomId p) \<and> \<not> printable (roomId p) then fst (handleLeaveRoom st pid)
          else
            let st1 = (if truthy (roomId p) then fst (handleLeaveRoom st pid) else st)
            in st1\<lparr>participants := (participants st1)(pid := None)\<rparr>)"
  by (auto simp: handleDisconnection_def Let_def case_prod_beta leave_completion
           split: option.splits)

lemma message_completion: "snd (snd (on_message st w pid data)) = Returns"
  by (simp add: on_message_def case_prod_beta split: inbound.splits completion.splits)

lemma message_state:
  "fst (on_message st w pid data) =
     (case data of Unparseable \<Rightarrow> st | Parses message \<Rightarrow> fst (handleMessage st pid message))"
  by (simp add: on_message_def case_prod_beta split: inbound.splits completion.splits)

lemma handle_state_cases:
  "fst (handleMessage st pid message) = st \<or>
   (\<exists>m. message = PObject m \<and> fst (handleMessage st pid message) = fst (handleJoinRoom st pid m)) \<or>
   fst (handleMessage st pid message) = fst (handleLeaveRoom st pid)"
  by (auto simp: handleMessage_def Let_def case_prod_beta signal_state
           split: option.splits parsed.splits)

subsection \<open>The membership invariant\<close>

lemma members_put:
  "members (st\<lparr>rooms := R, participants := (participants st)(pid \<mapsto> p')\<rparr>) r =
     (members st r - {pid}) \<union> (if roomId p' = r then {pid} else {})"
  by (auto simp: members_def)

lemma members_rooms: "members (st\<lparr>rooms := R\<rparr>) r = members st r"
  by (simp add: members_def)

lemma members_forget:
  "members (st\<lparr>participants := (participants st)(pid := None)\<rparr>) r = members st r - {pid}"
  by (auto simp: members_def)

lemma members_iff:
  "participants st pid = Some p \<Longrightarrow> pid \<in> members st r \<longleftrightarrow> roomId p = r"
  by (simp add: members_def)

lemma members_None:
  "participants st pid = None \<Longrightarrow> pid \<notin> members st r"
  by (simp add: members_def)

lemma exit_inv:
  assumes inv: "directory_inv st" and p: "participants st pid = Some p" and t: "truthy (roomId p)"
    and pr: "printable (roomId p)" and r: "rooms st (roomId p) = Some room"
  shows "directory_inv (st\<lparr>rooms := (if set_delete room pid = [] then (rooms st)(roomId p := None)
                                else (rooms st)(roomId p \<mapsto> set_delete room pid)),
             participants := (participants st)(pid \<mapsto> p\<lparr>roomId := JNull\<rparr>)\<rparr>)"
    (is "directory_inv ?st'")
proof -
  have room: "set room = members st (roomId p)" "distinct room"
    using inv r by (auto simp: directory_inv_def)
  have mem': "\<And>x. truthy x \<Longrightarrow> members ?st' x = members st x - {pid}"
    by (auto simp: members_put)
  have other: "\<And>x. x \<noteq> roomId p \<Longrightarrow> members st x - {pid} = members st x"
    using p by (auto simp: members_iff)
  have part1: "truthy x \<and> rm \<noteq> [] \<and> distinct rm \<and> set rm = members ?st' x \<and>
               (\<not> printable x \<longrightarrow> length rm = 1)"
    if h: "rooms ?st' x = Some rm" for x rm
  proof (cases "x = roomId p")
    case True
    with h have rm: "rm = set_delete room pid" "rm \<noteq> []"
      by (auto split: if_splits)
    have "set rm = set room - {pid}"
      using rm(1) by (simp add: set_delete_def)
    also have "\<dots> = members st x - {pid}"
      using room(1) True by simp
    also have "\<dots> = members ?st' x"
      using mem'[of x] t True by simp
    finally have "set rm = members ?st' x" .
    moreover have "distinct rm"
      using rm(1) room(2) by (simp add: set_delete_def distinct_removeAll)
    ultimately show ?thesis
      using rm(2) t pr True by simp
  next
    case False
    with h have old: "rooms st x = Some rm" by (auto split: if_splits)
    then have "truthy x \<and> rm \<noteq> [] \<and> distinct rm \<and> set rm = members st x \<and>
               (\<not> printable x \<longrightarrow> length rm = 1)"
      using inv unfolding directory_inv_def by blast
    then show ?thesis using mem'[of x] other[OF False] by simp
  qed
  have part2: "rooms ?st' (roomId q) \<noteq> None"
    if h: "participants ?st' i = Some q" "truthy (roomId q)" "printable (roomId q)" for i q
  proof -
    have ne: "i \<noteq> pid" using h by (auto split: if_splits)
    with h have old: "participants st i = Some q" by simp
    then have ex: "rooms st (roomId q) \<noteq> None"
      using inv h(2,3) unfolding directory_inv_def by blast
    show ?thesis
    proof (cases "roomId q = roomId p")
      case True
      then have "i \<in> set room" using old room by (simp add: members_iff)
      then have "i \<in> set (set_delete room pid)" using ne by (simp add: set_delete_def)
      then have "set_delete room pid \<noteq> []" by auto
      then show ?thesis using True by simp
    next
      case False
      then show ?thesis using ex by simp
    qed
  qed
  show ?thesis
    unfolding directory_inv_def using part1 part2 by blast
qed

lemma thrown_inv:
  assumes inv: "directory_inv st" and p: "participants st pid = Some p"
    and pr: "\<not> printable (roomId p)" and r: "rooms st (roomId p) = Some room"
  shows "set_delete room pid = [] \<and> directory_inv (st\<lparr>rooms := (rooms st)(roomId p := None)\<rparr>)"
proof -
  have room: "set room = members st (roomId p)" "length room = 1"
    using inv r pr unfolding directory_inv_def by blast+
  have "pid \<in> set room"
    using room(1) p by (simp add: members_iff)
  then have one: "room = [pid]"
    using room(2) by (cases room) auto
  have "directory_inv (st\<lparr>rooms := (rooms st)(roomId p := None)\<rparr>)"
    using inv pr unfolding directory_inv_def
    by (auto simp: members_rooms split: if_splits)
  then show ?thesis
    using one by (simp add: set_delete_def)
qed

lemma leave_inv:
  assumes "directory_inv st"
  shows "directory_inv (fst (handleLeaveRoom st pid))"
proof (cases "participants st pid")
  case None
  then show ?thesis using assms by (simp add: leave_state)
next
  case (Some p)
  show ?thesis
  proof (cases "truthy (roomId p)")
    case False
    then show ?thesis using Some assms by (simp add: leave_state)
  next
    case True
    show ?thesis
    proof (cases "printable (roomId p)")
      case pr: True
      then have "rooms st (roomId p) \<noteq> None"
        using assms Some True unfolding directory_inv_def by blast
      then obtain room where "rooms st (roomId p) = Some room"
        by auto
      then show ?thesis
        using exit_inv[OF assms Some True pr] Some True pr by (simp add: leave_state Let_def)
    next
      case npr: False
      show ?thesis
      proof (cases "rooms st (roomId p)")
        case None
        then show ?thesis
          using assms Some True npr by (simp add: leave_state Let_def)
      next
        case (Some room)
        from thrown_inv[OF assms \<open>participants st pid = Some p\<close> npr Some]
        show ?thesis
          using \<open>participants st pid = Some p\<close> True npr Some by (simp add: leave_state Let_def)
      qed
    qed
  qed
qed

lemma held_leave: "held (fst (handleLeaveRoom st pid)) \<subseteq> held st"
  by (auto simp: leave_state held_def Let_def split: option.splits if_splits)

lemma members_fresh:
  assumes inv: "directory_inv st" and t: "truthy rid"
    and f: "\<forall>a ok. rid = JRef a ok \<longrightarrow> a \<notin> held st"
  shows "rooms st rid = None \<or> printable rid"
    and "rooms st rid = None \<Longrightarrow> members st rid = {}"
proof -
  have ref: "members st rid = {}" if "rid = JRef a ok" for a ok
    using f that by (auto simp: held_def members_def)
  have prim: "printable rid \<or> (\<exists>a. rid = JRef a False)"
    by (cases rid) auto
  show "rooms st rid = None \<or> printable rid"
  proof (cases "rooms st rid")
    case (Some room)
    then have "room \<noteq> []" "set room = members st rid"
      using inv unfolding directory_inv_def by blast+
    then have "members st rid \<noteq> {}" by auto
    then show ?thesis using prim ref by blast
  qed simp
  show "members st rid = {}" if n: "rooms st rid = None"
  proof (cases "printable rid")
    case True
    show ?thesis
    proof (rule ccontr)
      assume "members st rid \<noteq> {}"
      then obtain i q where "participants st i = Some q" "roomId q = rid"
        by (auto simp: members_def)
      then have "rooms st rid \<noteq> None"
        using inv t True unfolding directory_inv_def by blast
      then show False using n by simp
    qed
  next
    case False
    then show ?thesis using prim ref by blast
  qed
qed

lemma enter_inv:
  assumes inv: "directory_inv st1" and q: "participants st1 pid = Some q"
    and nq: "\<not> truthy (roomId q)" and t: "truthy rid"
    and f: "\<And>a ok. rid = JRef a ok \<Longrightarrow> a \<notin> held st1"
  shows "directory_inv (st1\<lparr>rooms := (rooms st1)(rid \<mapsto> set_add (case rooms st1 rid of None \<Rightarrow> [] | Some r \<Rightarrow> r) pid),
             participants := (participants st1)(pid \<mapsto> p'\<lparr>roomId := rid\<rparr>)\<rparr>)"
    (is "directory_inv ?st'")
proof -
  define old where "old = (case rooms st1 rid of None \<Rightarrow> [] | Some r \<Rightarrow> r)"
  have f: "\<forall>a ok. rid = JRef a ok \<longrightarrow> a \<notin> held st1"
    using f by blast
  have notin: "pid \<notin> members st1 x" if "truthy x" for x
    using q nq that by (auto simp: members_iff)
  have old: "distinct old" "set old = members st1 rid" "old \<noteq> [] \<longrightarrow> printable rid"
  proof -
    have "distinct old \<and> set old = members st1 rid"
    proof (cases "rooms st1 rid")
      case None
      then show ?thesis
        using members_fresh(2)[OF inv t f None] by (simp add: old_def)
    next
      case (Some room)
      then have "distinct room \<and> set room = members st1 rid"
        using inv unfolding directory_inv_def by blast
      then show ?thesis using Some by (simp add: old_def)
    qed
    then show "distinct old" "set old = members st1 rid"
      by simp_all
    show "old \<noteq> [] \<longrightarrow> printable rid"
      using members_fresh(1)[OF inv t f] unfolding old_def by (auto split: option.splits)
  qed
  have mem: "members ?st' x = (members st1 x - {pid}) \<union> (if rid = x then {pid} else {})" for x
    by (simp add: members_put)
  have part1: "truthy x \<and> rm \<noteq> [] \<and> distinct rm \<and> set rm = members ?st' x \<and>
               (\<not> printable x \<longrightarrow> length rm = 1)"
    if h: "rooms ?st' x = Some rm" for x rm
  proof (cases "x = rid")
    case True
    then have rm: "rm = set_add old pid"
      using h by (simp add: old_def)
    have "pid \<notin> set old" using old(2) notin[OF t] by simp
    then have rm': "rm = old @ [pid]" using rm by (simp add: set_add_def)
    have "set rm = members ?st' x"
      unfolding mem using rm' old(2) True notin[OF t] by auto
    moreover have "distinct rm" using rm' old(1) \<open>pid \<notin> set old\<close> by simp
    moreover have "\<not> printable x \<longrightarrow> length rm = 1"
      using old(3) rm' True by auto
    ultimately show ?thesis using t True rm' by simp
  next
    case False
    with h have o: "rooms st1 x = Some rm" by (auto split: if_splits)
    then have k: "truthy x \<and> rm \<noteq> [] \<and> distinct rm \<and> set rm = members st1 x \<and>
               (\<not> printable x \<longrightarrow> length rm = 1)"
      using inv unfolding directory_inv_def by blast
    then have "members ?st' x = members st1 x"
      unfolding mem using False notin[of x] by auto
    then show ?thesis using k by simp
  qed
  have part2: "rooms ?st' (roomId k) \<noteq> None"
    if h: "participants ?st' i = Some k" "truthy (roomId k)" "printable (roomId k)" for i k
  proof (cases "i = pid")
    case True
    then show ?thesis using h by auto
  next
    case False
    then have "participants st1 i = Some k" using h by simp
    then have "rooms st1 (roomId k) \<noteq> None"
      using inv h(2,3) unfolding directory_inv_def by blast
    then show ?thesis by simp
  qed
  show ?thesis
    unfolding directory_inv_def using part1 part2 by blast
qed

lemma held_put:
  "held (st\<lparr>rooms := R, participants := (participants st)(pid \<mapsto> p')\<rparr>) \<subseteq>
     held st \<union> (case roomId p' of JRef a ok \<Rightarrow> {a} | _ \<Rightarrow> {})"
  by (auto simp: held_def split: if_splits jsval.splits)

lemma held_join:
  "held (fst (handleJoinRoom st pid m)) \<subseteq>
     held st \<union> (case m ''roomId'' of JRef a ok \<Rightarrow> {a} | _ \<Rightarrow> {})"
proof (cases "participants st pid")
  case None
  then show ?thesis by (simp add: join_state)
next
  case (Some p)
  define st1 where "st1 = (if truthy (roomId p) then fst (handleLeaveRoom st pid) else st)"
  define p' where "p' = p\<lparr>roomId := m ''roomId'', nickname := or_anonymous (m ''nickname'')\<rparr>"
  have h1: "held st1 \<subseteq> held st"
    using held_leave[of st pid] by (simp add: st1_def)
  have "held (st1\<lparr>rooms := R, participants := (participants st1)(pid \<mapsto> p')\<rparr>) \<subseteq>
     held st \<union> (case m ''roomId'' of JRef a ok \<Rightarrow> {a} | _ \<Rightarrow> {})" for R
    using held_put[where st = st1 and R = R and pid = pid and p' = p'] h1
    by (auto simp: p'_def)
  moreover have "held (fst (handleLeaveRoom st pid)) \<subseteq>
     held st \<union> (case m ''roomId'' of JRef a ok \<Rightarrow> {a} | _ \<Rightarrow> {})"
    using held_leave[of st pid] by blast
  ultimately show ?thesis
    using Some
    by (simp add: join_state Let_def st1_def[symmetric] p'_def[symmetric])
qed

lemma join_inv:
  assumes inv: "directory_inv st"
    and f: "\<And>a ok. m ''roomId'' = JRef a ok \<Longrightarrow> a \<notin> held st"
  shows "directory_inv (fst (handleJoinRoom st pid m))"
proof (cases "participants st pid")
  case None
  then show ?thesis using inv by (simp add: join_state)
next
  case (Some p)
  show ?thesis
  proof (cases "truthy (m ''roomId'')")
    case False
    with Some inv show ?thesis by (simp add: join_state)
  next
    case True
    show ?thesis
    proof (cases "truthy (roomId p) \<and> \<not> printable (roomId p)")
      case True
      then show ?thesis
        using Some \<open>truthy (m ''roomId'')\<close> leave_inv[OF inv] by (simp add: join_state)
    next
      case False
      define st1 where "st1 = (if truthy (roomId p) then fst (handleLeaveRoom st pid) else st)"
      define p' where "p' = p\<lparr>nickname := or_anonymous (m ''nickname'')\<rparr>"
      have inv1: "directory_inv st1"
        using inv leave_inv by (simp add: st1_def)
      have p1: "participants st1 pid = Some (if truthy (roomId p) then p\<lparr>roomId := JNull\<rparr> else p)"
        using Some False by (auto simp: st1_def leave_participant)
      have h1: "held st1 \<subseteq> held st"
        using held_leave[of st pid] by (simp add: st1_def)
      have f1: "\<And>a ok. m ''roomId'' = JRef a ok \<Longrightarrow> a \<notin> held st1"
        using f h1 by blast
      have eq: "p\<lparr>roomId := m ''roomId'', nickname := or_anonymous (m ''nickname'')\<rparr> = p'\<lparr>roomId := m ''roomId''\<rparr>"
        by (simp add: p'_def)
      have "directory_inv (st1\<lparr>rooms := (rooms st1)(m ''roomId'' \<mapsto> set_add (case rooms st1 (m ''roomId'') of None \<Rightarrow> [] | Some r \<Rightarrow> r) pid),
               participants := (participants st1)(pid \<mapsto> p'\<lparr>roomId := m ''roomId''\<rparr>)\<rparr>)"
        by (rule enter_inv[OF inv1 p1 _ True f1]) simp_all
      moreover have "fst (handleJoinRoom st pid m) = st1\<lparr>rooms := (rooms st1)(m ''roomId'' \<mapsto> set_add (case rooms st1 (m ''roomId'') of None \<Rightarrow> [] | Some r \<Rightarrow> r) pid),
               participants := (participants st1)(pid \<mapsto> p'\<lparr>roomId := m ''roomId''\<rparr>)\<rparr>"
        unfolding join_state eq[symmetric] st1_def using Some True False
        by (cases "truthy (roomId p)") (simp_all add: Let_def)
      ultimately show ?thesis by simp
    qed
  qed
qed

lemma forget_inv:
  assumes "directory_inv st1" "\<forall>q. participants st1 pid = Some q \<longrightarrow> \<not> truthy (roomId q)"
  shows "directory_inv (st1\<lparr>participants := (participants st1)(pid := None)\<rparr>)"
proof -
  have "members (st1\<lparr>participants := (participants st1)(pid := None)\<rparr>) x = members st1 x"
    if "truthy x" for x
    using assms(2) that by (auto simp: members_def)
  then show ?thesis
    using assms(1) unfolding directory_inv_def by (auto split: if_splits)
qed

lemma held_forget: "held (st\<lparr>participants := (participants st)(pid := None)\<rparr>) \<subseteq> held st"
  by (auto simp: held_def split: if_splits)

lemma disconnection_inv:
  assumes "directory_inv st"
  shows "directory_inv (fst (handleDisconnection st pid))"
proof (cases "participants st pid")
  case None
  then show ?thesis
    using assms by (simp add: disconnection_state forget_inv)
next
  case (Some p)
  show ?thesis
  proof (cases "truthy (roomId p)")
    case True
    have l: "directory_inv (fst (handleLeaveRoom st pid))"
      using assms by (rule leave_inv)
    show ?thesis
    proof (cases "printable (roomId p)")
      case pr: True
      have "\<forall>q. participants (fst (handleLeaveRoom st pid)) pid = Some q \<longrightarrow> \<not> truthy (roomId q)"
        using Some True pr by (simp add: leave_participant)
      then show ?thesis
        using l Some True pr by (simp add: disconnection_state forget_inv Let_def)
    next
      case False
      then show ?thesis
        using l Some True by (simp add: disconnection_state)
    qed
  next
    case False
    then show ?thesis
      using Some assms by (simp add: disconnection_state forget_inv)
  qed
qed

lemma held_disconnection: "held (fst (handleDisconnection st pid)) \<subseteq> held st"
proof (cases "participants st pid")
  case None
  then show ?thesis
    using held_forget[of st pid] by (simp add: disconnection_state)
next
  case (Some p)
  define st1 where "st1 = (if truthy (roomId p) then fst (handleLeaveRoom st pid) else st)"
  have h1: "held st1 \<subseteq> held st"
    using held_leave[of st pid] by (simp add: st1_def)
  have "held (st1\<lparr>participants := (participants st1)(pid := None)\<rparr>) \<subseteq> held st"
    using held_forget[where st = st1 and pid = pid] h1 by blast
  then show ?thesis
    using Some held_leave[of st pid]
    by (simp add: disconnection_state Let_def st1_def[symmetric])
qed

lemma inv_keys: "directory_inv st \<Longrightarrow> rooms st rid = Some room \<Longrightarrow> truthy rid"
  unfolding directory_inv_def by blast

lemma connection_state:
  "fst (on_connection st pid w) =
     st\<lparr>participants := (participants st)(pid \<mapsto> \<lparr>participant.ws = w, roomId = JNull, nickname = JStr ''Anonymous''\<rparr>)\<rparr>"
  by (simp add: on_connection_def Let_def)

lemma connection_inv:
  assumes "directory_inv st" "participants st pid = None"
  shows "directory_inv (fst (on_connection st pid w))"
proof -
  have "members (fst (on_connection st pid w)) x = members st x" if "truthy x" for x
    using that assms(2) by (auto simp: connection_state members_def)
  then show ?thesis
    using assms unfolding directory_inv_def
    by (auto simp: connection_state split: if_splits)
qed

lemma held_connection: "held (fst (on_connection st pid w)) \<subseteq> held st"
  by (auto simp: connection_state held_def split: if_splits)

lemma message_inv:
  assumes "directory_inv st"
    and "\<And>m a ok. data = Parses (PObject m) \<Longrightarrow> m ''roomId'' = JRef a ok \<Longrightarrow> a \<notin> held st"
  shows "directory_inv (fst (on_message st w pid data))"
proof (cases data)
  case Unparseable
  then show ?thesis using assms by (simp add: message_state)
next
  case (Parses message)
  from handle_state_cases[of st pid message] show ?thesis
  proof (elim disjE exE conjE)
    assume "fst (handleMessage st pid message) = st"
    then show ?thesis using Parses assms(1) by (simp add: message_state)
  next
    fix m assume m: "message = PObject m"
      "fst (handleMessage st pid message) = fst (handleJoinRoom st pid m)"
    have "directory_inv (fst (handleJoinRoom st pid m))"
      using assms(2) Parses m(1) by (intro join_inv[OF assms(1)]) blast
    then show ?thesis using Parses m(2) by (simp add: message_state)
  next
    assume "fst (handleMessage st pid message) = fst (handleLeaveRoom st pid)"
    then show ?thesis using Parses leave_inv[OF assms(1)] by (simp add: message_state)
  qed
qed

lemma held_message:
  "held (fst (on_message st w pid data)) \<subseteq> held st \<union> set (room_ref (Message w pid data))"
proof (cases data)
  case Unparseable
  then show ?thesis by (simp add: message_state)
next
  case (Parses message)
  from handle_state_cases[of st pid message] show ?thesis
  proof (elim disjE exE conjE)
    assume "fst (handleMessage st pid message) = st"
    then show ?thesis using Parses by (simp add: message_state)
  next
    fix m assume m: "message = PObject m"
      "fst (handleMessage st pid message) = fst (handleJoinRoom st pid m)"
    show ?thesis
      using held_join[of st pid m] Parses m
      by (auto simp: message_state split: jsval.splits)
  next
    assume "fst (handleMessage st pid message) = fst (handleLeaveRoom st pid)"
    then show ?thesis using Parses held_leave[of st pid] by (auto simp: message_state)
  qed
qed

lemma inv_readyState: "directory_inv (st\<lparr>readyState := r\<rparr>) = directory_inv st"
  by (simp add: directory_inv_def members_def)

lemma held_readyState: "held (st\<lparr>readyState := r\<rparr>) = held st"
  by (simp add: held_def)

lemma close_state: "fst (on_close st pid) = fst (handleDisconnection st pid)"
  by (simp add: on_close_def case_prod_beta)

lemma step_inv:
  assumes "directory_inv st" "\<And>pid w. ev = Connection pid w \<Longrightarrow> participants st pid = None"
    and "held st \<inter> set (room_ref ev) = {}"
  shows "directory_inv (fst (step st ev))"
proof (cases ev)
  case (Connection pid w)
  then show ?thesis using assms by (simp add: connection_inv inv_readyState)
next
  case (Message w pid data)
  have "directory_inv (fst (on_message st w pid data))"
  proof (rule message_inv[OF assms(1)])
    fix m a ok assume "data = Parses (PObject m)" "m ''roomId'' = JRef a ok"
    then have "a \<in> set (room_ref ev)" using Message by simp
    then show "a \<notin> held st" using assms(3) by blast
  qed
  then show ?thesis using Message by simp
next
  case (Close w pid)
  have "directory_inv (st\<lparr>readyState := (readyState st)(w := CLOSED)\<rparr>)"
    using assms(1) by (simp add: inv_readyState)
  from disconnection_inv[OF this, of pid] Close show ?thesis
    by (simp add: close_state)
next
  case (SocketError pid)
  then show ?thesis using assms(1) by (simp add: on_error_def)
next
  case (SocketState w s)
  then show ?thesis using assms(1) by (simp add: inv_readyState)
qed

lemma held_step: "held (fst (step st ev)) \<subseteq> held st \<union> set (room_ref ev)"
proof (cases ev)
  case (Connection pid w)
  then show ?thesis
    using held_connection[of "st\<lparr>readyState := (readyState st)(w := OPEN)\<rparr>" pid w]
    by (simp add: held_readyState)
next
  case (Message w pid data)
  then show ?thesis using held_message[of st w pid data] by simp
next
  case (Close w pid)
  then show ?thesis
    using held_disconnection[of "st\<lparr>readyState := (readyState st)(w := CLOSED)\<rparr>" pid]
    by (simp add: close_state held_readyState)
next
  case (SocketError pid)
  then show ?thesis by (simp add: on_error_def)
next
  case (SocketState w s)
  then show ?thesis by (simp add: held_readyState)
qed

lemma run_state:
  "fst (run st (ev # evs)) =
     (if snd (snd (step st ev)) = Returns then fst (run (fst (step st ev)) evs)
      else fst (step st ev))"
  by (simp add: case_prod_beta split: completion.splits)

lemma fresh_ids_Cons:
  "fresh_ids st (ev # evs) \<Longrightarrow> snd (snd (step st ev)) = Returns \<Longrightarrow> fresh_ids (fst (step st ev)) evs"
  by (auto split: prod.splits completion.splits)

lemma run_inv:
  "directory_inv st \<Longrightarrow> fresh_ids st evs \<Longrightarrow> distinct (room_refs evs) \<Longrightarrow>
   held st \<inter> set (room_refs evs) = {} \<Longrightarrow> directory_inv (fst (run st evs))"
proof (induction evs arbitrary: st)
  case Nil
  then show ?case by simp
next
  case (Cons ev evs)
  have refs: "room_refs (ev # evs) = room_ref ev @ room_refs evs"
    by (simp add: room_refs_def)
  have one: "directory_inv (fst (step st ev))"
    using Cons.prems by (intro step_inv) (auto simp: refs)
  show ?case
  proof (cases "snd (snd (step st ev)) = Returns")
    case True
    have "fresh_ids (fst (step st ev)) evs"
      using Cons.prems(2) True by (rule fresh_ids_Cons)
    moreover have "distinct (room_refs evs)"
      using Cons.prems(3) by (simp add: refs)
    moreover have "held (fst (step st ev)) \<inter> set (room_refs evs) = {}"
      using held_step[of st ev] Cons.prems(3,4) by (auto simp: refs)
    ultimately have "directory_inv (fst (run (fst (step st ev)) evs))"
      using one by (intro Cons.IH)
    then show ?thesis unfolding run_state using True by simp
  next
    case False
    then show ?thesis unfolding run_state using one by simp
  qed
qed

lemma init_inv: "directory_inv (init_server rs)"
  by (simp add: directory_inv_def init_server_def)

lemma init_held: "held (init_server rs) = {}"
  by (simp add: held_def init_server_def)

lemma run_inv_init:
  assumes "fresh_ids (init_server rs) evs" and "fresh_objects evs"
  shows "directory_inv (fst (run (init_server rs) evs))"
  using init_inv assms(1) assms(2)[unfolded fresh_objects_def]
  by (rule run_inv) (simp add: init_held)

text \<open>
  C1. Room membership invariant. After every sequence of events processed from the empty
  directory (connections with fresh ids, messages including join-room and leave-room with
  newly parsed objects, closes), every room in the \<open>rooms\<close> map has a non-empty
  participant set, and that set is exactly the set of participants whose \<open>roomId\<close> equals
  the room's id; every participant whose room id can be formatted is in that room's set;
  and no room with an empty membership remains in the map: its entry is gone when the
  handler that emptied it returns or throws. This holds of the directory at the throw,
  too, when an exception ends the run.
\<close>

theorem room_membership_invariant:
  assumes "fresh_ids (init_server rs) evs" and "fresh_objects evs"
  shows "let st = fst (run (init_server rs) evs) in
           (\<forall>rid room. rooms st rid = Some room \<longrightarrow> room \<noteq> [] \<and> set room = members st rid) \<and>
           (\<forall>pid p. participants st pid = Some p \<and> truthy (roomId p) \<and> printable (roomId p) \<longrightarrow>
                (\<exists>room. rooms st (roomId p) = Some room \<and> pid \<in> set room)) \<and>
           (\<forall>rid. members st rid = {} \<longrightarrow> rooms st rid = None)"
proof -
  define st where "st = fst (run (init_server rs) evs)"
  have inv: "directory_inv st"
    unfolding st_def using assms by (rule run_inv_init)
  have a: "room \<noteq> [] \<and> set room = members st rid" if "rooms st rid = Some room" for rid room
    using inv that unfolding directory_inv_def by blast
  have b: "\<exists>room. rooms st (roomId p) = Some room \<and> pid \<in> set room"
    if "participants st pid = Some p \<and> truthy (roomId p) \<and> printable (roomId p)" for pid p
  proof -
    from that inv have "rooms st (roomId p) \<noteq> None" unfolding directory_inv_def by blast
    then obtain room where r: "rooms st (roomId p) = Some room" by auto
    then have "set room = members st (roomId p)" using a by simp
    then have "pid \<in> set room" using that by (simp add: members_iff)
    with r show ?thesis by simp
  qed
  have c: "rooms st rid = None" if "members st rid = {}" for rid
  proof (cases "rooms st rid")
    case (Some room)
    then show ?thesis using a[OF Some] that by simp
  qed simp
  show ?thesis
    unfolding st_def[symmetric] Let_def using a b c by blast
qed

lemma demo_fresh: "fresh_ids fresh_server demo_run"
  by (simp add: demo_defs server_defs)

lemma demo_objects: "fresh_objects demo_run"
  by (simp add: fresh_objects_def room_refs_def demo_defs)

lemma demo_rooms: "rooms (fst (run fresh_server demo_run)) (JStr ''r1'') = Some [''P2'']"
  by (simp add: demo_defs server_defs)

text \<open>The sample run: the ids are fresh, and room r1 ends with P2 as its only member.\<close>

theorem room_membership_invariant_witness:
  "fresh_ids fresh_server demo_run \<and> fresh_objects demo_run \<and>
   rooms (fst (run fresh_server demo_run)) (JStr ''r1'') = Some [''P2''] \<and>
   members (fst (run fresh_server demo_run)) (JStr ''r1'') = {''P2''}"
proof -
  have f: "fresh_ids (init_server (\<lambda>w. CONNECTING)) demo_run"
    using demo_fresh by (simp add: fresh_server_def)
  have r: "rooms (fst (run (init_server (\<lambda>w. CONNECTING)) demo_run)) (JStr ''r1'') = Some [''P2'']"
    using demo_rooms by (simp add: fresh_server_def)
  have "set [''P2''] = members (fst (run (init_server (\<lambda>w. CONNECTING)) demo_run)) (JStr ''r1'')"
    using room_membership_invariant[OF f demo_objects] r unfolding Let_def by blast
  then show ?thesis
    using f r demo_objects by (simp add: fresh_server_def)
qed

subsection \<open>The sample states\<close>

lemma demo_final_rooms: "rooms demo_final = [JStr ''r1'' \<mapsto> [''P2'']]"
  by (simp add: demo_final_def demo_defs server_defs)

lemma demo_final_participants:
  "participants demo_final =
     [''P2'' \<mapsto> \<lparr>participant.ws = 2, roomId = JStr ''r1'', nickname = JStr ''Bob''\<rparr>,
      ''P1'' \<mapsto> \<lparr>participant.ws = 1, roomId = JNull, nickname = JStr ''Ann''\<rparr>]"
  by (simp add: demo_final_def demo_defs server_defs)

lemma demo_final_readyState:
  "readyState demo_final = (\<lambda>w. CONNECTING)(1 := OPEN, 2 := OPEN)"
  by (simp add: demo_final_def demo_defs server_defs)

lemma demo_final_inv: "directory_inv demo_final"
  unfolding demo_final_def fresh_server_def
  using demo_fresh[unfolded fresh_server_def] demo_objects by (rule run_inv_init)

lemma in_object_room_state:
  "in_object_room =
     \<lparr>rooms = [JRef 5 False \<mapsto> [''P1'']],
      participants = [''P1'' \<mapsto> \<lparr>participant.ws = 1, roomId = JRef 5 False,
                                  nickname = JStr ''Anonymous''\<rparr>],
      readyState = (\<lambda>w. CONNECTING)(1 := OPEN)\<rparr>"
  by (simp add: in_object_room_def fresh_server_def object_defs no_fields_def server_defs)

lemma after_failed_leave_state:
  "after_failed_leave =
     \<lparr>rooms = Map.empty,
      participants = [''P1'' \<mapsto> \<lparr>participant.ws = 1, roomId = JRef 5 False,
                                  nickname = JStr ''Anonymous''\<rparr>],
      readyState = (\<lambda>w. CONNECTING)(1 := OPEN)\<rparr>"
  by (simp add: after_failed_leave_def in_object_room_state leave_msg_def no_fields_def
        server_defs)

subsection \<open>Leaving\<close>

text \<open>
  For a participant whose \<open>roomId\<close> is null (falsy), \<open>handleLeaveRoom\<close> returns at its
  guard: the directory is unchanged and nothing is emitted, and a \<open>leave-room\<close> message
  only logs the line logged for every message.
\<close>

lemma leave_room_outside_room:
  assumes "participants st pid = Some p" and "\<not> truthy (roomId p)"
    and "m ''type'' = JStr ''leave-room''"
  shows "handleLeaveRoom st pid = (st, [], Returns) \<and>
         on_message st w pid (Parses (PObject m)) =
           (st, [ConsoleLog (MessageFrom pid (JStr ''leave-room''))], Returns)"
  using assms by (simp add: handleLeaveRoom_def on_message_def handleMessage_def)

text \<open>A leave that returns has cleared the \<open>roomId\<close>: a second one changes and emits nothing.\<close>

lemma leave_twice_after_return:
  assumes "snd (snd (handleLeaveRoom st pid)) = Returns"
  shows "handleLeaveRoom (fst (handleLeaveRoom st pid)) pid =
           (fst (handleLeaveRoom st pid), [], Returns)"
proof (cases "participants st pid")
  case None
  then show ?thesis by (simp add: handleLeaveRoom_def)
next
  case (Some q)
  show ?thesis
  proof (cases "truthy (roomId q)")
    case True
    then have pr: "printable (roomId q)"
      using assms Some by (auto simp: leave_completion split: if_splits)
    have "participants (fst (handleLeaveRoom st pid)) pid = Some (q\<lparr>roomId := JNull\<rparr>)"
      using Some True pr by (simp add: leave_participant)
    then show ?thesis by (simp add: handleLeaveRoom_def)
  next
    case False
    then show ?thesis using Some by (simp add: handleLeaveRoom_def)
  qed
qed

text \<open>
  C8. Leaving twice consecutively: the second leave is observable. P1 is alone in the room
  whose id is the object \<open>{"toString": 1}\<close>, and sends \<open>leave-room\<close> twice. The first
  \<open>handleLeaveRoom\<close> deletes the emptied room and throws at
  \<open>`Room ${roomId} deleted (empty)`\<close>, before \<open>participant.roomId = null\<close>: P1 keeps the
  room id, gets no \<open>room-left\<close>, and the listener's \<open>catch\<close> replies
  \<open>Invalid message format\<close>. The second passes the guard, throws at
  \<open>`... left room ${roomId}`\<close>, and is answered with the same error.
\<close>

theorem second_leave_answered_with_error:
  "participants in_object_room ''P1'' =
     Some \<lparr>participant.ws = 1, roomId = toString_1 5, nickname = JStr ''Anonymous''\<rparr> \<and>
   rooms in_object_room (toString_1 5) = Some [''P1''] \<and>
   on_message in_object_room 1 ''P1'' (Parses (PObject leave_msg)) =
     (after_failed_leave,
      [ConsoleLog (MessageFrom ''P1'' (JStr ''leave-room'')),
       ConsoleError ErrorParsing, Send 1 (ErrorMsg InvalidMessageFormat)],
      Returns) \<and>
   participants after_failed_leave ''P1'' =
     Some \<lparr>participant.ws = 1, roomId = toString_1 5, nickname = JStr ''Anonymous''\<rparr> \<and>
   rooms after_failed_leave (toString_1 5) = None \<and>
   handleLeaveRoom after_failed_leave ''P1'' = (after_failed_leave, [], Throws TypeError) \<and>
   on_message after_failed_leave 1 ''P1'' (Parses (PObject leave_msg)) =
     (after_failed_leave,
      [ConsoleLog (MessageFrom ''P1'' (JStr ''leave-room'')),
       ConsoleError ErrorParsing, Send 1 (ErrorMsg InvalidMessageFormat)],
      Returns)"
proof -
  have a: "on_message in_object_room 1 ''P1'' (Parses (PObject leave_msg)) =
     (after_failed_leave,
      [ConsoleLog (MessageFrom ''P1'' (JStr ''leave-room'')),
       ConsoleError ErrorParsing, Send 1 (ErrorMsg InvalidMessageFormat)],
      Returns)"
    unfolding after_failed_leave_state
    by (simp add: in_object_room_state leave_msg_def no_fields_def server_defs)
  have b: "handleLeaveRoom after_failed_leave ''P1'' = (after_failed_leave, [], Throws TypeError)"
    by (simp add: after_failed_leave_state handleLeaveRoom_def Let_def)
  have c: "on_message after_failed_leave 1 ''P1'' (Parses (PObject leave_msg)) =
     (after_failed_leave,
      [ConsoleLog (MessageFrom ''P1'' (JStr ''leave-room'')),
       ConsoleError ErrorParsing, Send 1 (ErrorMsg InvalidMessageFormat)],
      Returns)"
    by (simp add: after_failed_leave_state leave_msg_def no_fields_def server_defs)
  show ?thesis
    using a b c
    by (simp add: in_object_room_state after_failed_leave_state toString_1_def)
qed

subsection \<open>Relaying signals\<close>

text \<open>
  A \<open>signal\<close> message \<open>{to, signal}\<close> from participant \<open>a\<close>: if a record exists for \<open>to\<close>
  and its socket is open, the target's socket gets exactly one message
  \<open>{type: "signal", from: a, signal}\<close> carrying the payload as received, and nothing else
  is sent; if there is no record for \<open>to\<close> and \<open>to\<close> can be formatted, the message is
  dropped with a warning on the console, and nothing is sent to anyone. The directory is
  unchanged in both cases.
\<close>

lemma signal_relay_printable:
  assumes "participants st a = Some sender" and "m ''type'' = JStr ''signal''"
  shows "(\<forall>t. participants_get st (m ''to'') = Some t \<and> readyState st (participant.ws t) = OPEN \<longrightarrow>
            handleSignal st a m =
              (st, [Send (participant.ws t) (SignalMsg a (m ''signal'')),
                    ConsoleLog (SignalForwarded a (m ''to''))], Returns) \<and>
            on_message st w a (Parses (PObject m)) =
              (st, [ConsoleLog (MessageFrom a (JStr ''signal'')),
                    Send (participant.ws t) (SignalMsg a (m ''signal'')),
                    ConsoleLog (SignalForwarded a (m ''to''))], Returns)) \<and>
         (participants_get st (m ''to'') = None \<and> printable (m ''to'') \<longrightarrow>
            handleSignal st a m = (st, [ConsoleWarn (TargetNotFound (m ''to''))], Returns) \<and>
            on_message st w a (Parses (PObject m)) =
              (st, [ConsoleLog (MessageFrom a (JStr ''signal'')),
                    ConsoleWarn (TargetNotFound (m ''to''))], Returns))"
  using assms
  by (simp add: handleSignal_def on_message_def handleMessage_def sendMessage_def Let_def)

text \<open>
  C3. Silent drop: a signal whose target is absent can be answered with an error. P1, in
  the sample state, sends \<open>{"type": "signal", "to": {"toString": 1}, "signal": 0}\<close>. No
  record is found for \<open>to\<close>; \<open>handleSignal\<close> throws at
  \<open>`Signal target not found: ${to}`\<close>, before the warning is printed, and the listener's
  \<open>catch\<close> replies \<open>Invalid message format\<close> to P1.
\<close>

theorem signal_to_object_answered_with_error:
  "participants demo_final ''P1'' =
     Some \<lparr>participant.ws = 1, roomId = JNull, nickname = JStr ''Ann''\<rparr> \<and>
   readyState demo_final 1 = OPEN \<and>
   signal_object_target ''type'' = JStr ''signal'' \<and>
   signal_object_target ''to'' = toString_1 5 \<and>
   participants_get demo_final (signal_object_target ''to'') = None \<and>
   handleSignal demo_final ''P1'' signal_object_target = (demo_final, [], Throws TypeError) \<and>
   on_message demo_final 1 ''P1'' (Parses (PObject signal_object_target)) =
     (demo_final,
      [ConsoleLog (MessageFrom ''P1'' (JStr ''signal'')),
       ConsoleError ErrorParsing, Send 1 (ErrorMsg InvalidMessageFormat)],
      Returns)"
proof -
  have t: "signal_object_target ''type'' = JStr ''signal''"
    "signal_object_target ''to'' = JRef 5 False"
    by (simp_all add: signal_object_target_def toString_1_def)
  have p: "participants demo_final ''P1'' =
     Some \<lparr>participant.ws = 1, roomId = JNull, nickname = JStr ''Ann''\<rparr>"
    by (simp add: demo_final_participants)
  have g: "participants_get demo_final (JRef 5 False) = None"
    by (simp add: participants_get_def)
  have h: "handleSignal demo_final ''P1'' signal_object_target = (demo_final, [], Throws TypeError)"
    by (simp add: handleSignal_def t g Let_def)
  have m: "on_message demo_final 1 ''P1'' (Parses (PObject signal_object_target)) =
     (demo_final,
      [ConsoleLog (MessageFrom ''P1'' (JStr ''signal'')),
       ConsoleError ErrorParsing, Send 1 (ErrorMsg InvalidMessageFormat)],
      Returns)"
    by (simp add: on_message_def handleMessage_def p t h sendError_def sendMessage_def
          demo_final_readyState Let_def)
  show ?thesis
    using t p g h m by (simp add: toString_1_def demo_final_readyState)
qed

subsection \<open>Malformed input\<close>

lemma leave_readyState: "readyState (fst (handleLeaveRoom st pid)) = readyState st"
  by (simp add: leave_state Let_def split: option.splits)

lemma join_readyState: "readyState (fst (handleJoinRoom st pid m)) = readyState st"
  by (simp add: join_state leave_readyState Let_def split: option.splits)

lemma leave_keeps: "participants st i \<noteq> None \<Longrightarrow> participants (fst (handleLeaveRoom st pid)) i \<noteq> None"
  by (simp add: leave_state Let_def split: option.splits)

lemma join_keeps: "participants st i \<noteq> None \<Longrightarrow> participants (fst (handleJoinRoom st pid m)) i \<noteq> None"
  using leave_keeps[of st i pid] by (auto simp: join_state Let_def split: option.splits)

lemma message_readyState: "readyState (fst (on_message st w pid data)) = readyState st"
proof (cases data)
  case Unparseable
  then show ?thesis by (simp add: message_state)
next
  case (Parses message)
  then show ?thesis
    using handle_state_cases[of st pid message] join_readyState[of st pid] leave_readyState[of st pid]
    by (auto simp: message_state)
qed

lemma message_keeps:
  assumes "participants st i \<noteq> None"
  shows "participants (fst (on_message st w pid data)) i \<noteq> None"
proof (cases data)
  case Unparseable
  then show ?thesis using assms by (simp add: message_state)
next
  case (Parses message)
  then show ?thesis
    using handle_state_cases[of st pid message] join_keeps[OF assms, of pid]
      leave_keeps[OF assms, of pid] assms
    by (auto simp: message_state)
qed

text \<open>
  C5, as the code has it. On a connection whose participant record exists and whose socket
  is open: an unparseable frame, the JSON value \<open>null\<close> and a message of unknown type are
  each answered on the same socket with one \<open>error\<close> message, and change nothing (the
  text names the unknown type when the type can be formatted, and is
  \<open>Invalid message format\<close> when it cannot and the handler throws); a \<open>join-room\<close>
  without a (truthy) \<open>roomId\<close> and a \<open>signal\<close> without \<open>to\<close> are ignored without any
  reply, and \<open>handleMessage\<close> returns on them as it does on a message without \<open>type\<close>;
  and whatever the frame, the \<open>message\<close> listener returns, no socket changes state and
  the participant's record stays.
\<close>

theorem malformed_input_replies:
  assumes "participants st pid = Some p" and "participant.ws p = w" and "readyState st w = OPEN"
  shows
   "on_message st w pid Unparseable =
      (st, [ConsoleError ErrorParsing, Send w (ErrorMsg InvalidMessageFormat)], Returns) \<and>
    on_message st w pid (Parses PNull) =
      (st, [ConsoleError ErrorParsing, Send w (ErrorMsg InvalidMessageFormat)], Returns) \<and>
    (m ''type'' \<notin> {JStr ''join-room'', JStr ''leave-room'', JStr ''signal''} \<and>
     printable (m ''type'') \<longrightarrow>
       handleMessage st pid (PObject m) =
         (st, [ConsoleLog (MessageFrom pid (m ''type'')), ConsoleWarn (UnknownType (m ''type'')),
               Send w (ErrorMsg (UnknownMessageType (m ''type'')))], Returns) \<and>
       on_message st w pid (Parses (PObject m)) =
         (st, [ConsoleLog (MessageFrom pid (m ''type'')), ConsoleWarn (UnknownType (m ''type'')),
               Send w (ErrorMsg (UnknownMessageType (m ''type'')))], Returns)) \<and>
    (m ''type'' \<notin> {JStr ''join-room'', JStr ''leave-room'', JStr ''signal''} \<and>
     \<not> printable (m ''type'') \<longrightarrow>
       on_message st w pid (Parses (PObject m)) =
         (st, [ConsoleLog (MessageFrom pid (m ''type'')), ConsoleError ErrorParsing,
               Send w (ErrorMsg InvalidMessageFormat)], Returns)) \<and>
    (m ''type'' = JStr ''join-room'' \<and> \<not> truthy (m ''roomId'') \<longrightarrow>
       handleMessage st pid (PObject m) =
         (st, [ConsoleLog (MessageFrom pid (JStr ''join-room''))], Returns) \<and>
       on_message st w pid (Parses (PObject m)) =
         (st, [ConsoleLog (MessageFrom pid (JStr ''join-room''))], Returns)) \<and>
    (m ''type'' = JStr ''signal'' \<and> m ''to'' = JUndefined \<longrightarrow>
       handleMessage st pid (PObject m) =
         (st, [ConsoleLog (MessageFrom pid (JStr ''signal'')),
               ConsoleWarn (TargetNotFound JUndefined)], Returns) \<and>
       on_message st w pid (Parses (PObject m)) =
         (st, [ConsoleLog (MessageFrom pid (JStr ''signal'')),
               ConsoleWarn (TargetNotFound JUndefined)], Returns)) \<and>
    snd (snd (on_message st w pid data)) = Returns \<and>
    readyState (fst (on_message st w pid data)) = readyState st \<and>
    participants (fst (on_message st w pid data)) pid \<noteq> None"
proof -
  have a: "on_message st w pid Unparseable =
      (st, [ConsoleError ErrorParsing, Send w (ErrorMsg InvalidMessageFormat)], Returns)"
    using assms(3) by (simp add: on_message_def sendError_def sendMessage_def)
  have b: "on_message st w pid (Parses PNull) =
      (st, [ConsoleError ErrorParsing, Send w (ErrorMsg InvalidMessageFormat)], Returns)"
    using assms by (simp add: on_message_def handleMessage_def sendError_def sendMessage_def)
  have c: "handleMessage st pid (PObject m) =
         (st, [ConsoleLog (MessageFrom pid (m ''type'')), ConsoleWarn (UnknownType (m ''type'')),
               Send w (ErrorMsg (UnknownMessageType (m ''type'')))], Returns)"
    if "m ''type'' \<notin> {JStr ''join-room'', JStr ''leave-room'', JStr ''signal''} \<and>
        printable (m ''type'')"
    using that assms
    by (simp add: handleMessage_def sendError_def sendMessage_def Let_def)
  have c': "on_message st w pid (Parses (PObject m)) =
         (st, [ConsoleLog (MessageFrom pid (m ''type'')), ConsoleError ErrorParsing,
               Send w (ErrorMsg InvalidMessageFormat)], Returns)"
    if "m ''type'' \<notin> {JStr ''join-room'', JStr ''leave-room'', JStr ''signal''} \<and>
        \<not> printable (m ''type'')"
    using that assms
    by (simp add: on_message_def handleMessage_def sendError_def sendMessage_def Let_def)
  have d: "handleMessage st pid (PObject m) =
         (st, [ConsoleLog (MessageFrom pid (JStr ''join-room''))], Returns)"
    if "m ''type'' = JStr ''join-room'' \<and> \<not> truthy (m ''roomId'')"
    using that assms by (simp add: handleMessage_def handleJoinRoom_def Let_def)
  have e: "handleMessage st pid (PObject m) =
         (st, [ConsoleLog (MessageFrom pid (JStr ''signal'')),
               ConsoleWarn (TargetNotFound JUndefined)], Returns)"
    if "m ''type'' = JStr ''signal'' \<and> m ''to'' = JUndefined"
    using that assms
    by (simp add: handleMessage_def handleSignal_def participants_get_def Let_def)
  have r: "on_message st w pid (Parses (PObject m)) = (st, es, Returns)"
    if "handleMessage st pid (PObject m) = (st, es, Returns)" for es
    using that by (simp add: on_message_def)
  have f: "participants (fst (on_message st w pid data)) pid \<noteq> None"
    using assms(1) by (intro message_keeps) simp
  show ?thesis
    using a b c c' d e r f message_completion message_readyState by blast
qed

text \<open>
  C5 as stated fails. P1, connected with an open socket, sends \<open>{"type": "join-room"}\<close>;
  the guard \<open>if (!participant || !roomId) return\<close> ends the handler and no \<open>error\<close>
  message is sent. And the directory can be made to crash: P1 joins the room
  \<open>{"toString": 1}\<close> and closes its connection; \<open>handleLeaveRoom\<close> throws under the
  \<open>close\<close> listener, which catches nothing.
\<close>

theorem malformed_input_counterexample:
  "on_message demo_final 1 ''P1'' (Parses (PObject join_without_room)) =
     (demo_final, [ConsoleLog (MessageFrom ''P1'' (JStr ''join-room''))], Returns) \<and>
   snd (snd (run fresh_server (object_room_run @ [Close 1 ''P1'']))) = Throws TypeError"
proof -
  have a: "on_message demo_final 1 ''P1'' (Parses (PObject join_without_room)) =
     (demo_final, [ConsoleLog (MessageFrom ''P1'' (JStr ''join-room''))], Returns)"
    by (simp add: on_message_def handleMessage_def handleJoinRoom_def join_without_room_def
          no_fields_def demo_final_participants Let_def)
  have b: "snd (snd (run fresh_server (object_room_run @ [Close 1 ''P1'']))) = Throws TypeError"
    by (simp add: fresh_server_def object_defs no_fields_def server_defs)
  show ?thesis using a b by simp
qed

text \<open>P1 sends garbage, an unknown type, and a join without a room.\<close>

theorem malformed_input_replies_witness:
  "participants demo_final ''P1'' = Some \<lparr>participant.ws = 1, roomId = JNull, nickname = JStr ''Ann''\<rparr> \<and>
   readyState demo_final 1 = OPEN \<and>
   on_message demo_final 1 ''P1'' Unparseable =
     (demo_final, [ConsoleError ErrorParsing, Send 1 (ErrorMsg InvalidMessageFormat)], Returns) \<and>
   on_message demo_final 1 ''P1'' (Parses (PObject ping_msg)) =
     (demo_final, [ConsoleLog (MessageFrom ''P1'' (JStr ''ping'')),
                   ConsoleWarn (UnknownType (JStr ''ping'')),
                   Send 1 (ErrorMsg (UnknownMessageType (JStr ''ping'')))], Returns) \<and>
   on_message demo_final 1 ''P1'' (Parses (PObject object_type)) =
     (demo_final, [ConsoleLog (MessageFrom ''P1'' (toString_1 5)),
                   ConsoleError ErrorParsing,
                   Send 1 (ErrorMsg InvalidMessageFormat)], Returns) \<and>
   on_message demo_final 1 ''P1'' (Parses (PObject join_without_room)) =
     (demo_final, [ConsoleLog (MessageFrom ''P1'' (JStr ''join-room''))], Returns)"
proof -
  have a: "participants demo_final ''P1'' = Some \<lparr>participant.ws = 1, roomId = JNull, nickname = JStr ''Ann''\<rparr>"
    by (simp add: demo_final_participants)
  have b: "participant.ws \<lparr>participant.ws = 1, roomId = JNull, nickname = JStr ''Ann''\<rparr> = 1"
    by simp
  have c: "readyState demo_final 1 = OPEN"
    by (simp add: demo_final_readyState)
  have t: "ping_msg ''type'' = JStr ''ping''" "join_without_room ''type'' = JStr ''join-room''"
    "join_without_room ''roomId'' = JUndefined" "object_type ''type'' = JRef 5 False"
    by (simp_all add: ping_msg_def join_without_room_def object_type_def toString_1_def
          no_fields_def)
  show ?thesis
    using malformed_input_replies[where st = demo_final and pid = "''P1''" and w = 1
            and m = ping_msg, OF a b c]
          malformed_input_replies[where st = demo_final and pid = "''P1''" and w = 1
            and m = object_type, OF a b c]
          malformed_input_replies[where st = demo_final and pid = "''P1''" and w = 1
            and m = join_without_room, OF a b c] a c
    by (simp add: t toString_1_def)
qed

subsection \<open>Joining\<close>

lemma broadcast_loop:
  "concat (map (\<lambda>participantId.
            if Some participantId = ex then []
            else (case participants st participantId of
                    None \<Rightarrow> []
                  | Some p \<Rightarrow>
                      if readyState st (participant.ws p) = OPEN then sendMessage st (participant.ws p) msg else []))
            room) = notices st msg (filter (\<lambda>i. Some i \<noteq> ex) room)"
  unfolding notices_def
  by (induction room) (auto simp: sendMessage_def split: option.splits)

lemma broadcast_notices:
  "rooms st rid = Some room \<Longrightarrow>
   broadcastToRoom st rid msg ex = notices st msg (filter (\<lambda>i. Some i \<noteq> ex) room)"
  by (simp add: broadcastToRoom_def broadcast_loop)

lemma notices_cong:
  "(\<And>i. i \<in> set is \<Longrightarrow> participants st i = participants st' i) \<Longrightarrow>
   readyState st = readyState st' \<Longrightarrow> notices st msg is = notices st' msg is"
  unfolding notices_def
  by (intro arg_cong[where f = concat] map_cong) (auto split: option.splits)

lemma roster_cong:
  "(\<And>i. i \<in> set is \<Longrightarrow> participants st i = participants st' i) \<Longrightarrow>
   roster_of st is = roster_of st' is"
  unfolding roster_of_def by (intro map_cong) (auto split: option.splits)

lemma notices_all:
  "e \<in> set (notices st msg is) \<Longrightarrow> \<exists>w. e = Send w msg"
  unfolding notices_def by (auto split: option.splits if_splits)

lemma leave_effects_kinds:
  "e \<in> set (fst (snd (handleLeaveRoom st pid))) \<Longrightarrow> \<not> is_joined_notice e \<and> \<not> is_roster e"
  by (auto simp: handleLeaveRoom_def Let_def sendMessage_def broadcastToRoom_def
           split: option.splits if_splits)

lemma filter_none: "(\<And>e. e \<in> set es \<Longrightarrow> \<not> P e) \<Longrightarrow> filter P es = []"
  by (induction es) auto

lemma filter_all: "(\<And>e. e \<in> set es \<Longrightarrow> P e) \<Longrightarrow> filter P es = es"
  by (induction es) auto

lemma printable_or_anonymous: "printable (or_anonymous v) = printable v"
  using falsy_printable[of v] by (auto simp: or_anonymous_def)

lemma join_effects:
  assumes "participants st pid = Some p" "truthy (m ''roomId'')"
    and "printable (roomId p)" "printable (m ''roomId'')" "printable (m ''nickname'')"
  shows "fst (snd (handleJoinRoom st pid m)) =
    (let rid = m ''roomId''; nick = or_anonymous (m ''nickname'');
         st1 = (if truthy (roomId p) then fst (handleLeaveRoom st pid) else st);
         e1 = (if truthy (roomId p) then fst (snd (handleLeaveRoom st pid)) else []);
         room' = set_add (case rooms st1 rid of None \<Rightarrow> [] | Some r \<Rightarrow> r) pid;
         st2 = fst (handleJoinRoom st pid m);
         existing = roster_of st2 (filter (\<lambda>i. i \<noteq> pid) room')
     in e1 @ [ConsoleLog (JoinedRoom pid rid nick)]
           @ sendMessage st2 (participant.ws p) (RoomJoined rid pid)
           @ broadcastToRoom st2 rid (ParticipantJoined pid nick) (Some pid)
           @ (if existing \<noteq> [] then sendMessage st2 (participant.ws p) (ExistingParticipants existing) else []))"
proof (cases "truthy (roomId p)")
  case True
  have "snd (snd (handleLeaveRoom st pid)) = Returns"
    using assms(1,3) by (simp add: leave_completion)
  then obtain a b where "handleLeaveRoom st pid = (a, b, Returns)"
    by (cases "handleLeaveRoom st pid") auto
  then show ?thesis
    using assms True
    by (simp add: handleJoinRoom_def roster_of_def Let_def printable_or_anonymous)
next
  case False
  then show ?thesis
    using assms
    by (simp add: handleJoinRoom_def roster_of_def Let_def printable_or_anonymous)
qed

lemma members_no_room:
  assumes "directory_inv st" "truthy rid" "printable rid" "rooms st rid = None"
  shows "members st rid = {}"
proof (rule ccontr)
  assume "members st rid \<noteq> {}"
  then obtain i q where "participants st i = Some q" "roomId q = rid"
    by (auto simp: members_def)
  then have "rooms st rid \<noteq> None"
    using assms(1,2,3) unfolding directory_inv_def by blast
  then show False using assms(4) by simp
qed

lemma filter_notices_joined:
  "filter is_joined_notice (notices st (ParticipantJoined i n) is) = notices st (ParticipantJoined i n) is"
  by (rule filter_all) (auto dest: notices_all)

lemma filter_notices_roster:
  "filter is_roster (notices st (ParticipantJoined i n) is) = []"
  by (rule filter_none) (auto dest: notices_all)

text \<open>
  C2, as the code has it. A known participant joins with a truthy \<open>roomId\<close>, where the
  room id and the nickname of the message, and the id of the room the joiner is in, can
  be formatted into the handler's console lines (every string, number and boolean can).
  Then the handler returns. Let \<open>others\<close> be the room's members once the joiner has left
  the room it was in. They are the participants whose \<open>roomId\<close> is that room, each listed
  once, and the joiner is not among them. The \<open>participant-joined{participantId,
  nickname}\<close> messages sent are exactly one to each of \<open>others\<close> whose socket is open. An
  \<open>existing-participants\<close> message is sent only when \<open>others\<close> is non-empty, once, to the
  joiner alone (if its socket is open), and it lists \<open>others\<close>, never the joiner; when
  \<open>others\<close> is empty no \<open>existing-participants\<close> message is sent at all.
\<close>

theorem join_roster_delivery:
  assumes inv: "directory_inv st" and p: "participants st pid = Some p"
    and t: "truthy (m ''roomId'')"
    and pr: "printable (roomId p)" "printable (m ''roomId'')" "printable (m ''nickname'')"
  shows "let rid = m ''roomId''; nick = or_anonymous (m ''nickname'');
             st1 = (if truthy (roomId p) then fst (handleLeaveRoom st pid) else st);
             others = (case rooms st1 rid of None \<Rightarrow> [] | Some room \<Rightarrow> room);
             effs = fst (snd (handleJoinRoom st pid m))
         in snd (snd (handleJoinRoom st pid m)) = Returns \<and>
            distinct others \<and> set others = members st1 rid \<and> pid \<notin> set others \<and>
            filter is_joined_notice effs = notices st1 (ParticipantJoined pid nick) others \<and>
            filter is_roster effs =
              (if others \<noteq> [] \<and> readyState st (participant.ws p) = OPEN
               then [Send (participant.ws p) (ExistingParticipants (roster_of st1 others))] else []) \<and>
            pid \<notin> fst ` set (roster_of st1 others)"
proof -
  define rid where "rid = m ''roomId''"
  define nick where "nick = or_anonymous (m ''nickname'')"
  define st1 where "st1 = (if truthy (roomId p) then fst (handleLeaveRoom st pid) else st)"
  define e1 where "e1 = (if truthy (roomId p) then fst (snd (handleLeaveRoom st pid)) else [])"
  define others where "others = (case rooms st1 rid of None \<Rightarrow> [] | Some room \<Rightarrow> room)"
  define st2 where "st2 = fst (handleJoinRoom st pid m)"
  define p1 where "p1 = (if truthy (roomId p) then p\<lparr>roomId := JNull\<rparr> else p)"
  have ret: "snd (snd (handleJoinRoom st pid m)) = Returns"
    using p pr by (simp add: join_completion)
  have inv1: "directory_inv st1"
    using inv leave_inv by (simp add: st1_def)
  have rs1: "readyState st1 = readyState st"
    by (simp add: st1_def leave_readyState)
  have part1: "participants st1 pid = Some p1"
    using p pr(1) by (simp add: st1_def p1_def leave_participant)
  have p1: "\<not> truthy (roomId p1)" "participant.ws p1 = participant.ws p"
    by (simp_all add: p1_def)
  have trid: "truthy rid" "printable rid" using t pr(2) by (simp_all add: rid_def)
  have notin: "pid \<notin> members st1 rid"
    using part1 p1(1) trid by (auto simp: members_iff)
  have oth: "distinct others \<and> set others = members st1 rid"
  proof (cases "rooms st1 rid")
    case None
    then show ?thesis
      using members_no_room[OF inv1 trid] by (simp add: others_def)
  next
    case (Some room)
    then have "distinct room \<and> set room = members st1 rid"
      using inv1 unfolding directory_inv_def by blast
    then show ?thesis
      using Some by (simp add: others_def)
  qed
  then have npid: "pid \<notin> set others" using notin by simp
  have room': "set_add others pid = others @ [pid]"
    using npid by (simp add: set_add_def)
  have st2: "st2 = st1\<lparr>rooms := (rooms st1)(rid \<mapsto> others @ [pid]),
                     participants := (participants st1)(pid \<mapsto> p\<lparr>roomId := rid, nickname := nick\<rparr>)\<rparr>"
    using p t pr(1) room'
    by (simp add: st2_def join_state Let_def st1_def rid_def nick_def others_def)
  have rooms2: "rooms st2 rid = Some (others @ [pid])"
    by (simp add: st2)
  have rs2: "readyState st2 = readyState st1"
    by (simp add: st2)
  have same: "participants st2 i = participants st1 i" if "i \<in> set others" for i
    using that npid by (auto simp: st2)
  have flt: "filter (\<lambda>i. i \<noteq> pid) (others @ [pid]) = others"
    using npid by (auto simp: filter_id_conv)
  have flt': "filter (\<lambda>i. Some i \<noteq> Some pid) (others @ [pid]) = others"
    using flt by simp
  have bc: "broadcastToRoom st2 rid (ParticipantJoined pid nick) (Some pid) =
              notices st1 (ParticipantJoined pid nick) others"
    unfolding broadcast_notices[OF rooms2] flt'
    by (rule notices_cong) (simp_all add: same rs2)
  have ros: "roster_of st2 (filter (\<lambda>i. i \<noteq> pid) (others @ [pid])) = roster_of st1 others"
    unfolding flt by (rule roster_cong) (simp add: same)
  have ne: "roster_of st1 others \<noteq> [] \<longleftrightarrow> others \<noteq> []"
    by (simp add: roster_of_def)
  have effs: "fst (snd (handleJoinRoom st pid m)) =
      e1 @ [ConsoleLog (JoinedRoom pid rid nick)]
         @ sendMessage st2 (participant.ws p) (RoomJoined rid pid)
         @ notices st1 (ParticipantJoined pid nick) others
         @ (if others \<noteq> [] then sendMessage st2 (participant.ws p) (ExistingParticipants (roster_of st1 others))
            else [])"
    unfolding join_effects[where m = m, OF p t pr] Let_def
    using bc ros ne room'
    by (simp add: st2_def[symmetric] st1_def[symmetric] rid_def[symmetric] nick_def[symmetric]
          e1_def[symmetric] others_def[symmetric])
  have e1j: "filter is_joined_notice e1 = []"
    unfolding e1_def by (rule filter_none) (auto dest: leave_effects_kinds split: if_splits)
  have e1r: "filter is_roster e1 = []"
    unfolding e1_def by (rule filter_none) (auto dest: leave_effects_kinds split: if_splits)
  have j: "filter is_joined_notice (fst (snd (handleJoinRoom st pid m))) =
             notices st1 (ParticipantJoined pid nick) others"
    unfolding effs by (simp add: e1j filter_notices_joined sendMessage_def)
  have r: "filter is_roster (fst (snd (handleJoinRoom st pid m))) =
              (if others \<noteq> [] \<and> readyState st (participant.ws p) = OPEN
               then [Send (participant.ws p) (ExistingParticipants (roster_of st1 others))] else [])"
    unfolding effs by (simp add: e1r filter_notices_roster sendMessage_def rs2 rs1)
  have k: "pid \<notin> fst ` set (roster_of st1 others)"
    using npid by (auto simp: roster_of_def)
  show ?thesis
    unfolding Let_def
    using ret oth npid j r k
    by (simp add: st1_def[symmetric] rid_def[symmetric] nick_def[symmetric] others_def[symmetric])
qed

text \<open>
  C2 as stated fails. P1 joins the new room r1 and receives \<open>room-joined\<close> only: the
  guard \<open>existingParticipants.length > 0\<close> keeps the empty roster from being sent. When
  P2 joins r1 while member P1's socket is closing, P1 gets no \<open>participant-joined\<close>. And
  when P1 joins r1, where P2 is, with the nickname \<open>{"toString": 1}\<close>, the handler writes
  the room and the record and throws at its console line: P2 gets no
  \<open>participant-joined\<close> and P1 no roster.
\<close>

theorem join_roster_delivery_counterexample:
  "fst (snd (handleJoinRoom one_connected ''P1'' (join_msg ''r1'' ''Ann''))) =
     [ConsoleLog (JoinedRoom ''P1'' (JStr ''r1'') (JStr ''Ann'')),
      Send 1 (RoomJoined (JStr ''r1'') ''P1'')] \<and>
   fst (snd (handleJoinRoom closing_member ''P2'' (join_msg ''r1'' ''Bob''))) =
     [ConsoleLog (JoinedRoom ''P2'' (JStr ''r1'') (JStr ''Bob'')),
      Send 2 (RoomJoined (JStr ''r1'') ''P2''),
      Send 2 (ExistingParticipants [(''P1'', JStr ''Ann'')])] \<and>
   snd (handleJoinRoom demo_final ''P1'' join_object_nickname) = ([], Throws TypeError) \<and>
   rooms (fst (handleJoinRoom demo_final ''P1'' join_object_nickname)) (JStr ''r1'') =
     Some [''P2'', ''P1'']"
proof -
  have a: "fst (snd (handleJoinRoom one_connected ''P1'' (join_msg ''r1'' ''Ann''))) =
     [ConsoleLog (JoinedRoom ''P1'' (JStr ''r1'') (JStr ''Ann'')),
      Send 1 (RoomJoined (JStr ''r1'') ''P1'')]"
    by (simp add: one_connected_def demo_defs server_defs)
  have b: "fst (snd (handleJoinRoom closing_member ''P2'' (join_msg ''r1'' ''Bob''))) =
     [ConsoleLog (JoinedRoom ''P2'' (JStr ''r1'') (JStr ''Bob'')),
      Send 2 (RoomJoined (JStr ''r1'') ''P2''),
      Send 2 (ExistingParticipants [(''P1'', JStr ''Ann'')])]"
    by (simp add: closing_member_def demo_defs server_defs)
  have t: "join_object_nickname ''roomId'' = JStr ''r1''"
    "join_object_nickname ''nickname'' = JRef 5 False"
    by (simp_all add: join_object_nickname_def toString_1_def)
  have c: "snd (handleJoinRoom demo_final ''P1'' join_object_nickname) = ([], Throws TypeError)"
    by (simp add: handleJoinRoom_def t demo_final_participants or_anonymous_def Let_def)
  have d: "rooms (fst (handleJoinRoom demo_final ''P1'' join_object_nickname)) (JStr ''r1'') =
     Some [''P2'', ''P1'']"
    by (simp add: join_state t demo_final_participants demo_final_rooms set_add_def Let_def)
  show ?thesis using a b c d by simp
qed

text \<open>P1 joins r1, where P2 is: P2 is told, and P1 gets the roster with P2.\<close>

theorem join_roster_delivery_witness:
  "directory_inv demo_final \<and>
   participants demo_final ''P1'' = Some \<lparr>participant.ws = 1, roomId = JNull, nickname = JStr ''Ann''\<rparr> \<and>
   truthy (join_msg ''r1'' ''Ann'' ''roomId'') \<and> printable JNull \<and>
   printable (join_msg ''r1'' ''Ann'' ''roomId'') \<and> printable (join_msg ''r1'' ''Ann'' ''nickname'') \<and>
   snd (snd (handleJoinRoom demo_final ''P1'' (join_msg ''r1'' ''Ann''))) = Returns \<and>
   filter is_joined_notice (fst (snd (handleJoinRoom demo_final ''P1'' (join_msg ''r1'' ''Ann'')))) =
     [Send 2 (ParticipantJoined ''P1'' (JStr ''Ann''))] \<and>
   filter is_roster (fst (snd (handleJoinRoom demo_final ''P1'' (join_msg ''r1'' ''Ann'')))) =
     [Send 1 (ExistingParticipants [(''P2'', JStr ''Bob'')])]"
proof -
  have a: "participants demo_final ''P1'' = Some \<lparr>participant.ws = 1, roomId = JNull, nickname = JStr ''Ann''\<rparr>"
    by (simp add: demo_final_participants)
  have b: "truthy (join_msg ''r1'' ''Ann'' ''roomId'')"
    by (simp add: join_msg_def)
  have c: "join_msg ''r1'' ''Ann'' ''roomId'' = JStr ''r1''"
    "or_anonymous (join_msg ''r1'' ''Ann'' ''nickname'') = JStr ''Ann''"
    by (simp_all add: join_msg_def or_anonymous_def)
  have pr: "printable (roomId \<lparr>participant.ws = 1, roomId = JNull, nickname = JStr ''Ann''\<rparr>)"
    "printable (join_msg ''r1'' ''Ann'' ''roomId'')" "printable (join_msg ''r1'' ''Ann'' ''nickname'')"
    by (simp_all add: join_msg_def)
  have d: "notices demo_final msg [''P2''] = [Send 2 msg]" for msg
    by (simp add: notices_def demo_final_participants demo_final_readyState)
  have e: "roster_of demo_final [''P2''] = [(''P2'', JStr ''Bob'')]"
    by (simp add: roster_of_def demo_final_participants or_anonymous_def)
  show ?thesis
    using join_roster_delivery[where m = "join_msg ''r1'' ''Ann''", OF demo_final_inv a b pr]
      demo_final_inv a b pr
    by (simp add: Let_def c d e demo_final_rooms demo_final_readyState)
qed

section \<open>Properties of the Session Client\<close>

subsection \<open>Unfolding set, runs, what every step keeps\<close>

lemmas client_defs = init_client_def connect_def disconnect_def onopen_def onclose_def onerror_def
  onmessage_def handleMessage_client_def scheduleReconnect_def sendMessage_client_def
  joinRoom_def leaveRoom_def sendSignal_def close_socket_def Let_def

lemma run_client_state:
  "fst (run_client c (ev # evs)) = fst (run_client (fst (client_step c ev)) evs)"
  by (simp split: prod.splits)

lemma run_client_effects:
  "snd (run_client c (ev # evs)) = snd (client_step c ev) @ snd (run_client (fst (client_step c ev)) evs)"
  by (simp split: prod.splits)

lemma run_client_append:
  "fst (run_client c (xs @ ys)) = fst (run_client (fst (run_client c xs)) ys)"
  by (induction xs arbitrary: c) (simp_all add: run_client_state del: run_client.simps(2))

lemma step_handles_ok: "handles_ok c \<Longrightarrow> handles_ok (fst (client_step c ev))"
  by (cases ev)
     (auto simp: handles_ok_def client_defs split: option.splits ready_state.splits if_splits prod.splits inbound.splits parsed.splits)

lemma step_constants_ok: "constants_ok c \<Longrightarrow> constants_ok (fst (client_step c ev))"
  by (cases ev)
     (auto simp: constants_ok_def client_defs split: option.splits ready_state.splits if_splits prod.splits inbound.splits parsed.splits)


lemma run_handles_ok: "handles_ok c \<Longrightarrow> handles_ok (fst (run_client c evs))"
  by (induction evs arbitrary: c)
     (simp_all add: run_client_state step_handles_ok del: run_client.simps(2))

lemma run_constants_ok: "constants_ok c \<Longrightarrow> constants_ok (fst (run_client c evs))"
  by (induction evs arbitrary: c)
     (simp_all add: run_client_state step_constants_ok del: run_client.simps(2))

lemma init_handles_ok: "handles_ok (init_client t)"
  by (simp add: handles_ok_def init_client_def)

lemma init_constants_ok: "constants_ok (init_client t)"
  by (simp add: constants_ok_def init_client_def)

subsection \<open>Backoff\<close>

lemma schedule_delay:
  "SetTimeout d \<in> set (snd (client_step c ev)) \<Longrightarrow>
   reconnectAttempts (fst (client_step c ev)) = reconnectAttempts c + 1 \<and>
   reconnectAttempts (fst (client_step c ev)) \<le> maxReconnectAttempts c \<and>
   d = reconnectDelay c * 2 ^ (reconnectAttempts (fst (client_step c ev)) - 1)"
  by (cases ev)
     (auto simp: client_defs split: option.splits ready_state.splits if_splits prod.splits inbound.splits parsed.splits)

text \<open>
  C6. Exponential backoff schedule. In every state the client reaches from its initial
  state, whenever a step schedules a reconnect (sets a timer), it is attempt number
  \<open>n\<close>, one more than the attempts counted before; \<open>n\<close> is at most the maximum 5; and
  the timer's delay is exactly \<open>1000 * 2 ^ (n - 1)\<close> milliseconds. So no attempt beyond
  the fifth is ever scheduled.
\<close>

theorem backoff_schedule:
  assumes "c = fst (run_client (init_client t) evs)"
  shows "\<forall>d. SetTimeout d \<in> set (snd (client_step c ev)) \<longrightarrow>
           (let n = reconnectAttempts (fst (client_step c ev))
            in n = reconnectAttempts c + 1 \<and> n \<le> 5 \<and> d = 1000 * 2 ^ (n - 1))"
proof -
  have "constants_ok c"
    unfolding assms using init_constants_ok by (rule run_constants_ok)
  then have k: "maxReconnectAttempts c = 5" "reconnectDelay c = 1000"
    by (simp_all add: constants_ok_def)
  show ?thesis
    unfolding Let_def
  proof (intro allI impI)
    fix d
    assume "SetTimeout d \<in> set (snd (client_step c ev))"
    from schedule_delay[OF this] show
      "reconnectAttempts (fst (client_step c ev)) = reconnectAttempts c + 1 \<and>
       reconnectAttempts (fst (client_step c ev)) \<le> 5 \<and>
       d = 1000 * 2 ^ (reconnectAttempts (fst (client_step c ev)) - 1)"
      unfolding k by blast
  qed
qed

subsection \<open>After the last attempt\<close>

lemma no_connecting:
  assumes "handles_ok c" "retries_exhausted c"
  shows "sockets c w \<noteq> Some CONNECTING"
proof (cases "w < made c")
  case True
  then show ?thesis using assms(2) by (simp add: retries_exhausted_def list_all_iff)
next
  case False
  then show ?thesis using assms(1) by (simp add: handles_ok_def)
qed

lemma exhausted_step:
  assumes "handles_ok c" "retries_exhausted c" "by_browser ev"
  shows "retries_exhausted (fst (client_step c ev)) \<and> filter is_retry (snd (client_step c ev)) = []"
proof -
  have nc: "\<And>w. sockets c w \<noteq> Some CONNECTING"
    using assms(1,2) by (rule no_connecting)
  have ex: "maxReconnectAttempts c \<le> reconnectAttempts c" "timers c = []"
    "list_all (\<lambda>w. sockets c w \<noteq> Some CONNECTING) [0..<made c]"
    using assms(2) by (simp_all add: retries_exhausted_def)
  show ?thesis
  proof (cases ev)
    case (SocketOpens w)
    then show ?thesis using nc[of w] assms(2)
      by (auto split: option.splits ready_state.splits)
  next
    case (SocketMessage w data)
    then show ?thesis using assms(2)
      by (auto simp: onmessage_def handleMessage_client_def Let_def split: inbound.splits parsed.splits)
  next
    case (SocketErrors w)
    then show ?thesis using ex
      by (auto simp: onerror_def retries_exhausted_def list_all_iff split: option.splits)
  next
    case (SocketCloses w)
    then show ?thesis using ex
      by (auto simp: onclose_def retries_exhausted_def list_all_iff Let_def split: option.splits)
  next
    case (TimerFires k)
    then show ?thesis using assms(2) ex by simp
  qed (use assms(3) in simp_all)
qed

lemma exhausted_run:
  "handles_ok c \<Longrightarrow> retries_exhausted c \<Longrightarrow> list_all by_browser evs \<Longrightarrow>
   retries_exhausted (fst (run_client c evs)) \<and> filter is_retry (snd (run_client c evs)) = []"
proof (induction evs arbitrary: c)
  case Nil
  then show ?case by simp
next
  case (Cons ev evs)
  have s: "retries_exhausted (fst (client_step c ev)) \<and> filter is_retry (snd (client_step c ev)) = []"
    using Cons.prems by (intro exhausted_step) simp_all
  have h: "handles_ok (fst (client_step c ev))"
    using Cons.prems(1) by (rule step_handles_ok)
  have "list_all by_browser evs" using Cons.prems(3) by simp
  from Cons.IH[OF h conjunct1[OF s] this] s show ?case
    by (simp add: run_client_state run_client_effects del: run_client.simps(2))
qed

lemma exhausted_close:
  assumes "maxReconnectAttempts c \<le> reconnectAttempts c" "sockets c w = Some s"
  shows "client_step c (SocketCloses w) =
           (c\<lparr>isConnecting := False, sockets := (sockets c)(w \<mapsto> CLOSED)\<rparr>,
            [CLog DisconnectedFromServer, Call OnDisconnected])"
  using assms by (simp add: onclose_def Let_def)

text \<open>
  C4, as the code has it. Once the reconnect attempts are used up (no timer pending, no
  socket still connecting), the client never retries on its own: whatever the browser
  then delivers (closes, errors, frames, timers), no timer is set and no socket is made,
  and the client stays in that condition; only a call by the user can start a
  connection again. No terminal error is surfaced: a close in that condition logs the
  disconnection and invokes the \<open>onDisconnected\<close> callback, as every close does, and
  nothing else. The client goes quiet.
\<close>

theorem exhausted_client_goes_quiet:
  assumes "c = fst (run_client (init_client t) pre)" and "retries_exhausted c"
    and "list_all by_browser evs"
  shows "retries_exhausted (fst (run_client c evs)) \<and>
         filter is_retry (snd (run_client c evs)) = [] \<and>
         (\<forall>w s. sockets c w = Some s \<longrightarrow>
            client_step c (SocketCloses w) =
              (c\<lparr>isConnecting := False, sockets := (sockets c)(w \<mapsto> CLOSED)\<rparr>,
               [CLog DisconnectedFromServer, Call OnDisconnected]))"
proof -
  have h: "handles_ok c"
    unfolding assms(1) using init_handles_ok by (rule run_handles_ok)
  have "maxReconnectAttempts c \<le> reconnectAttempts c"
    using assms(2) by (simp add: retries_exhausted_def)
  then show ?thesis
    using exhausted_run[OF h assms(2,3)] exhausted_close by blast
qed


subsection \<open>The sample runs\<close>

lemma upt6: "[0..<6] = [0, 1, 2, 3, 4, 5]"
  by (simp add: upt_rec)

lemma all_failed_fields:
  "reconnectAttempts all_failed = 5" "maxReconnectAttempts all_failed = 5"
  "timers all_failed = []" "made all_failed = 6"
  "sockets all_failed 0 = Some CLOSED" "sockets all_failed 1 = Some CLOSED"
  "sockets all_failed 2 = Some CLOSED" "sockets all_failed 3 = Some CLOSED"
  "sockets all_failed 4 = Some CLOSED" "sockets all_failed 5 = Some CLOSED"
  by (simp_all add: all_failed_def lost_and_failed_def four_failed_run_def client_defs)

lemma all_failed_exhausted: "retries_exhausted all_failed"
  using all_failed_fields by (simp add: retries_exhausted_def upt6)

text \<open>
  C4 as stated fails. After the first connection is lost and all five reconnections
  have failed, the close of the fifth reconnection's socket finds the attempts used up:
  the client logs, calls \<open>onDisconnected\<close>, and that is all. No error callback is
  invoked, no promise of the caller is rejected, no state records the failure.
\<close>

theorem terminal_failure_counterexample:
  "retries_exhausted all_failed \<and>
   snd (client_step all_failed (SocketCloses 5)) =
     [CLog DisconnectedFromServer, Call OnDisconnected]"
  using all_failed_exhausted
  by (simp add: all_failed_fields onclose_def Let_def)

text \<open>After the five failed reconnections, further browser events start nothing.\<close>

theorem exhausted_client_goes_quiet_witness:
  "retries_exhausted all_failed \<and>
   list_all by_browser [SocketCloses 5, TimerFires 0, SocketOpens 5, SocketCloses 5] \<and>
   retries_exhausted
     (fst (run_client all_failed [SocketCloses 5, TimerFires 0, SocketOpens 5, SocketCloses 5])) \<and>
   filter is_retry
     (snd (run_client all_failed [SocketCloses 5, TimerFires 0, SocketOpens 5, SocketCloses 5])) = [] \<and>
   snd (client_step all_failed (SocketCloses 5)) =
     [CLog DisconnectedFromServer, Call OnDisconnected]"
proof -
  have a: "all_failed = fst (run_client (init_client False) lost_and_failed)"
    by (simp add: all_failed_def)
  have b: "list_all by_browser [SocketCloses 5, TimerFires 0, SocketOpens 5, SocketCloses 5]"
    by simp
  have c: "sockets all_failed 5 = Some CLOSED"
    by (simp add: all_failed_fields)
  note q = exhausted_client_goes_quiet[OF a all_failed_exhausted b]
  have r1: "retries_exhausted
     (fst (run_client all_failed [SocketCloses 5, TimerFires 0, SocketOpens 5, SocketCloses 5]))"
    using q by (rule conjunct1)
  have r2: "filter is_retry
     (snd (run_client all_failed [SocketCloses 5, TimerFires 0, SocketOpens 5, SocketCloses 5])) = []"
    using q by blast
  have "client_step all_failed (SocketCloses 5) =
          (all_failed\<lparr>isConnecting := False, sockets := (sockets all_failed)(5 \<mapsto> CLOSED)\<rparr>,
           [CLog DisconnectedFromServer, Call OnDisconnected])"
    using q c by blast
  then have r3: "snd (client_step all_failed (SocketCloses 5)) =
     [CLog DisconnectedFromServer, Call OnDisconnected]"
    by (simp del: client_step.simps)
  from all_failed_exhausted b r1 r2 r3 show ?thesis
    by (intro conjI)
qed

text \<open>After four failed reconnections, the next close schedules attempt 5 in 16000 ms.\<close>

theorem backoff_schedule_witness:
  "four_failed = fst (run_client (init_client False) four_failed_run) \<and>
   SetTimeout 16000 \<in> set (snd (client_step four_failed (SocketCloses 4))) \<and>
   reconnectAttempts four_failed = 4 \<and>
   reconnectAttempts (fst (client_step four_failed (SocketCloses 4))) = 5"
proof -
  have a: "four_failed = fst (run_client (init_client False) four_failed_run)"
    by (simp add: four_failed_def)
  have b: "SetTimeout 16000 \<in> set (snd (client_step four_failed (SocketCloses 4)))"
    by (simp add: four_failed_def four_failed_run_def client_defs)
  have c: "reconnectAttempts four_failed = 4"
    by (simp add: four_failed_def four_failed_run_def client_defs)
  show ?thesis
    using backoff_schedule[OF a, of "SocketCloses 4"] a b c by (auto simp: Let_def)
qed

subsection \<open>The connect guard\<close>

text \<open>
  C7 fails on the code. \<open>disconnect()\<close> followed at once by \<open>connect()\<close> leaves the old
  socket closing while the new one connects. The old socket's \<open>onclose\<close> then clears
  \<open>isConnecting\<close>, though socket 1 is still connecting, and, \<open>isIntentionalClose\<close>
  having been reset by that \<open>connect()\<close>, schedules a reconnect. From there a
  \<open>connect()\<close> by the user is not rejected but makes a third socket, and so does the
  \<open>connect()\<close> of the timer when it fires before socket 1 has opened; sockets 1 and 2
  then both open, and two transports are live.
\<close>

theorem second_transport_while_connecting:
  "sockets stale_close 1 = Some CONNECTING \<and> \<not> isConnecting stale_close \<and>
   timers stale_close = [1000] \<and>
   snd (client_step stale_close CallConnect) = [NewWebSocket 2] \<and>
   snd (client_step stale_close (TimerFires 0)) = [NewWebSocket 2] \<and>
   sockets two_transports 1 = Some OPEN \<and> sockets two_transports 2 = Some OPEN"
  by (simp add: two_transports_def stale_close_def stale_close_run_def client_defs)

text \<open>The guard itself: while \<open>isConnecting\<close> is set, \<open>connect\<close> is rejected and makes no socket.\<close>

lemma connect_rejected_while_connecting:
  "isConnecting c \<Longrightarrow> \<not> isConnected_client c \<Longrightarrow> connect c who = (c, [Reject who AlreadyConnecting])"
  by (simp add: connect_def isConnected_client_def)

section \<open>Properties of the Peer Connection Orchestrator\<close>

subsection \<open>Closing a connection\<close>

lemmas rtc_defs = initialize_def createConnection_def handleSignal_rtc_def
  sendDataChannelMessage_def broadcast_def broadcastMuteStatus_def broadcastAudioLevel_def
  closeConnection_def getConnection_def getAllConnections_def getConnectedPeerCount_def
  hasActiveConnections_def closeAllConnections_def cleanup_def addRemoteStream_def
  removeRemoteStream_def on_peer_signal_def on_peer_connect_def on_peer_stream_def
  on_peer_data_def on_peer_close_def on_peer_error_def handleDataChannelMessage_def Let_def

lemma get_after_delete: "js_map_get (js_map_delete entries k) k = None"
  by (induction entries) (auto simp: js_map_get_def js_map_delete_def)

lemma get_other_after_delete: "q \<noteq> k \<Longrightarrow> js_map_get (js_map_delete entries k) q = js_map_get entries q"
  by (induction entries) (auto simp: js_map_get_def js_map_delete_def)

lemma delete_absent: "js_map_get entries k = None \<Longrightarrow> js_map_delete entries k = entries"
  by (induction entries) (auto simp: js_map_get_def js_map_delete_def split: if_splits)

lemma close_absent: "getConnection m p = None \<Longrightarrow> closeConnection m p = (m, [])"
  by (simp add: closeConnection_def getConnection_def)

lemma close_present:
  assumes "getConnection m p = Some a"
  shows "closeConnection m p =
     (m\<lparr>maps := (maps m)(connections m := js_map_delete (maps m (connections m)) p),
        remoteStreams := js_map_delete (remoteStreams m) p\<rparr>,
      PeerDestroy (peer (objects m a)) #
      (case js_map_get (remoteStreams m) p of
         None \<Rightarrow> [] | Some s \<Rightarrow> [StopTracks s, RLog (RemovedStream p)]) @
      [RLog (ClosedConnection p)])"
proof (cases "js_map_get (remoteStreams m) p")
  case None
  then have "js_map_delete (remoteStreams m) p = remoteStreams m"
    by (rule delete_absent)
  then show ?thesis
    using assms None
    by (simp add: closeConnection_def getConnection_def removeRemoteStream_def)
next
  case (Some s)
  then show ?thesis
    using assms
    by (simp add: closeConnection_def getConnection_def removeRemoteStream_def)
qed

text \<open>
  C9. Idempotent teardown. When the manager has a record for peer \<open>p\<close>,
  \<open>closeConnection\<close> destroys the record's peer, deletes \<open>p\<close> from the connections map
  and removes \<open>p\<close>'s remote stream from the audio manager (stopping its tracks if one is
  registered); afterwards there is no record and no remote stream for \<open>p\<close>. When there
  is no record for \<open>p\<close>, \<open>closeConnection\<close> changes nothing and does nothing. So a
  second \<open>closeConnection\<close> of the same peer changes nothing and does nothing: twice is
  the same as once.
\<close>

theorem close_connection_idempotent:
  "(\<forall>a. getConnection m p = Some a \<longrightarrow>
      closeConnection m p =
        (m\<lparr>maps := (maps m)(connections m := js_map_delete (maps m (connections m)) p),
           remoteStreams := js_map_delete (remoteStreams m) p\<rparr>,
         PeerDestroy (peer (objects m a)) #
         (case js_map_get (remoteStreams m) p of
            None \<Rightarrow> [] | Some s \<Rightarrow> [StopTracks s, RLog (RemovedStream p)]) @
         [RLog (ClosedConnection p)]) \<and>
      getConnection (fst (closeConnection m p)) p = None \<and>
      js_map_get (remoteStreams (fst (closeConnection m p))) p = None) \<and>
   (getConnection m p = None \<longrightarrow> closeConnection m p = (m, [])) \<and>
   closeConnection (fst (closeConnection m p)) p = (fst (closeConnection m p), [])"
proof -
  have gone: "getConnection (fst (closeConnection m p)) p = None"
  proof (cases "getConnection m p")
    case None
    then show ?thesis by (simp add: close_absent)
  next
    case (Some a)
    show ?thesis
      unfolding close_present[OF Some] by (simp add: getConnection_def get_after_delete)
  qed
  have present: "closeConnection m p =
        (m\<lparr>maps := (maps m)(connections m := js_map_delete (maps m (connections m)) p),
           remoteStreams := js_map_delete (remoteStreams m) p\<rparr>,
         PeerDestroy (peer (objects m a)) #
         (case js_map_get (remoteStreams m) p of
            None \<Rightarrow> [] | Some s \<Rightarrow> [StopTracks s, RLog (RemovedStream p)]) @
         [RLog (ClosedConnection p)]) \<and>
      getConnection (fst (closeConnection m p)) p = None \<and>
      js_map_get (remoteStreams (fst (closeConnection m p))) p = None"
    if "getConnection m p = Some a" for a
    using close_present[OF that] gone by (simp add: get_after_delete)
  have twice: "closeConnection (fst (closeConnection m p)) p = (fst (closeConnection m p), [])"
    using gone by (rule close_absent)
  from present close_absent twice show ?thesis
    by blast
qed


subsection \<open>The copy handed out by \<open>getAllConnections\<close>\<close>

lemma remove_stream_maps:
  "removeRemoteStream (m\<lparr>maps := f\<rparr>) k =
     (case removeRemoteStream m k of (m', e) \<Rightarrow> (m'\<lparr>maps := f\<rparr>, e))"
  by (simp add: removeRemoteStream_def split: option.splits)

lemma remove_stream_keeps:
  "maps (fst (removeRemoteStream m k)) = maps m"
  "connections (fst (removeRemoteStream m k)) = connections m"
  "allocated (fst (removeRemoteStream m k)) = allocated m"
  "objects (fst (removeRemoteStream m k)) = objects m"
  by (simp_all add: removeRemoteStream_def split: option.splits)

lemma close_each_maps:
  "close_each (m\<lparr>maps := f\<rparr>) xs =
     (case close_each m xs of (m', e) \<Rightarrow> (m'\<lparr>maps := f\<rparr>, e))"
proof (induction xs arbitrary: m)
  case Nil
  then show ?case by simp
next
  case (Cons x xs)
  obtain k a where x: "x = (k, a)" by (cases x)
  obtain m1 e1 where r: "removeRemoteStream m k = (m1, e1)" by (cases "removeRemoteStream m k")
  show ?case
    using Cons.IH[of m1] by (simp add: x remove_stream_maps r split: prod.splits)
qed

lemma close_each_keeps:
  "maps (fst (close_each m xs)) = maps m \<and>
   connections (fst (close_each m xs)) = connections m \<and>
   allocated (fst (close_each m xs)) = allocated m"
proof (induction xs arbitrary: m)
  case Nil
  then show ?case by simp
next
  case (Cons x xs)
  obtain k a where x: "x = (k, a)" by (cases x)
  obtain m1 e1 where r: "removeRemoteStream m k = (m1, e1)" by (cases "removeRemoteStream m k")
  have "maps m1 = maps m" "connections m1 = connections m" "allocated m1 = allocated m"
    using remove_stream_keeps[of m k] by (simp_all add: r)
  then show ?case
    using Cons.IH[of m1] by (auto simp: x r split: prod.splits)
qed

lemma send_frame:
  "r \<noteq> connections m \<Longrightarrow>
   snd (snd (sendDataChannelMessage (m\<lparr>maps := (maps m)(r := x)\<rparr>) k msg t)) =
   snd (snd (sendDataChannelMessage m k msg t))"
  by (simp add: sendDataChannelMessage_def Let_def split: option.splits)

lemma broadcast_frame:
  "r \<noteq> connections m \<Longrightarrow>
   broadcast (m\<lparr>maps := (maps m)(r := x)\<rparr>) msg failing = broadcast m msg failing"
  by (simp add: broadcast_def send_frame cong: if_cong)

lemma frame_do:
  assumes "r \<noteq> connections m" "r < allocated m"
  shows "rtc_do (m\<lparr>maps := (maps m)(r := x)\<rparr>) op =
           (case rtc_do m op of (m', out) \<Rightarrow> (m'\<lparr>maps := (maps m')(r := x)\<rparr>, out))"
proof (cases op)
  case CloseAllConnections
  then show ?thesis
    using assms close_each_keeps[of m "maps m (connections m)"]
    by (auto simp: closeAllConnections_def Let_def close_each_maps fun_upd_twist split: prod.splits)
next
  case Cleanup
  then show ?thesis
    using assms close_each_keeps[of m "maps m (connections m)"]
    by (auto simp: cleanup_def closeAllConnections_def Let_def close_each_maps fun_upd_twist split: prod.splits)
next
  case (BroadcastMuteStatus isMuted now failing)
  then show ?thesis
    using assms by (simp add: broadcastMuteStatus_def broadcast_frame)
next
  case (BroadcastAudioLevel level now failing)
  then show ?thesis
    using assms by (simp add: broadcastAudioLevel_def broadcast_frame)
qed (use assms in \<open>auto simp: rtc_defs fun_upd_twist split: option.splits prod.splits inbound.splits parsed.splits\<close>)


lemma keep_do:
  "connections (fst (rtc_do m op)) = connections m \<and> allocated m \<le> allocated (fst (rtc_do m op))"
proof (cases op)
  case CloseAllConnections
  then show ?thesis
    using close_each_keeps[of m "maps m (connections m)"]
    by (auto simp: closeAllConnections_def Let_def split: prod.splits)
next
  case Cleanup
  then show ?thesis
    using close_each_keeps[of m "maps m (connections m)"]
    by (auto simp: cleanup_def closeAllConnections_def Let_def split: prod.splits)
next
  case (BroadcastMuteStatus isMuted now failing)
  then show ?thesis by (simp add: broadcastMuteStatus_def)
next
  case (BroadcastAudioLevel level now failing)
  then show ?thesis by (simp add: broadcastAudioLevel_def)
qed (auto simp: rtc_defs split: option.splits prod.splits inbound.splits parsed.splits)

lemma rtc_run_state: "fst (rtc_run m (op # ops)) = fst (rtc_run (fst (rtc_do m op)) ops)"
  by (simp split: prod.splits)

lemma rtc_run_outs:
  "snd (rtc_run m (op # ops)) = snd (rtc_do m op) # snd (rtc_run (fst (rtc_do m op)) ops)"
  by (simp split: prod.splits)

lemma run_alloc_ok: "alloc_ok m \<Longrightarrow> alloc_ok (fst (rtc_run m ops))"
proof (induction ops arbitrary: m)
  case Nil
  then show ?case by simp
next
  case (Cons op ops)
  have "alloc_ok (fst (rtc_do m op))"
    using Cons.prems keep_do[of m op] by (simp add: alloc_ok_def)
  then show ?case
    unfolding rtc_run_state by (rule Cons.IH)
qed

lemma init_alloc_ok: "alloc_ok (init_manager mic)"
  by (simp add: alloc_ok_def init_manager_def)

lemma frame_run:
  "r \<noteq> connections m \<Longrightarrow> r < allocated m \<Longrightarrow>
   rtc_run (m\<lparr>maps := (maps m)(r := x)\<rparr>) ops =
     (case rtc_run m ops of (m', outs) \<Rightarrow> (m'\<lparr>maps := (maps m')(r := x)\<rparr>, outs))"
proof (induction ops arbitrary: m)
  case Nil
  then show ?case by simp
next
  case (Cons op ops)
  obtain m1 out where d: "rtc_do m op = (m1, out)" by (cases "rtc_do m op")
  have k: "r \<noteq> connections m1" "r < allocated m1"
    using keep_do[of m op] Cons.prems by (simp_all add: d)
  obtain m2 outs where rr: "rtc_run m1 ops = (m2, outs)" by (cases "rtc_run m1 ops")
  have d': "rtc_do (m\<lparr>maps := (maps m)(r := x)\<rparr>) op = (m1\<lparr>maps := (maps m1)(r := x)\<rparr>, out)"
    using frame_do[OF Cons.prems, of x op] unfolding d prod.case .
  have ih: "rtc_run (m1\<lparr>maps := (maps m1)(r := x)\<rparr>) ops = (m2\<lparr>maps := (maps m2)(r := x)\<rparr>, outs)"
    using Cons.IH[OF k] unfolding rr prod.case .
  have A: "rtc_run (m\<lparr>maps := (maps m)(r := x)\<rparr>) (op # ops) =
          (m2\<lparr>maps := (maps m2)(r := x)\<rparr>, out # outs)"
    unfolding rtc_run.simps d' ih Let_def prod.case by (rule refl)
  have B: "rtc_run m (op # ops) = (m2, out # outs)"
    unfolding rtc_run.simps d rr Let_def prod.case by (rule refl)
  show ?case
    unfolding A B prod.case by (rule refl)
qed

text \<open>
  C10. \<open>getAllConnections\<close> returns a defensive copy. In every state the manager
  reaches, the \<open>Map\<close> returned is a new object, distinct from the manager's own, with
  the same entries. Whatever insertions, deletions or clearing its holder applies to it,
  the manager's own map keeps its entries, every later sequence of operations (method
  calls and peer events alike) returns the same results and has the same effects as
  without the edits, and the states reached differ in nothing but the returned \<open>Map\<close>
  object itself.
\<close>

theorem get_all_connections_defensive_copy:
  assumes "m = fst (rtc_run (init_manager mic) pre)"
  shows "let (m1, r) = getAllConnections m; m2 = edit_map m1 r edits
         in r \<noteq> connections m \<and> connections m1 = connections m \<and>
            maps m1 r = maps m (connections m) \<and>
            maps m1 (connections m1) = maps m (connections m) \<and>
            maps m2 (connections m2) = maps m (connections m) \<and>
            snd (rtc_run m2 ops) = snd (rtc_run m1 ops) \<and>
            fst (rtc_run m2 ops) =
              (fst (rtc_run m1 ops))\<lparr>maps := (maps (fst (rtc_run m1 ops)))(r := maps m2 r)\<rparr>"
proof -
  have ok: "connections m < allocated m"
    using run_alloc_ok[OF init_alloc_ok, of mic pre] assms by (simp add: alloc_ok_def)
  define m1 where "m1 = fst (getAllConnections m)"
  define r where "r = allocated m"
  define m2 where "m2 = edit_map m1 r edits"
  have g: "getAllConnections m = (m1, r)"
    by (simp add: m1_def r_def getAllConnections_def)
  have a: "r \<noteq> connections m" "connections m1 = connections m" "r < allocated m1"
    using ok by (simp_all add: m1_def r_def getAllConnections_def)
  have b: "maps m1 r = maps m (connections m)" "maps m1 (connections m1) = maps m (connections m)"
    using ok by (simp_all add: m1_def r_def getAllConnections_def)
  have m2: "m2 = m1\<lparr>maps := (maps m1)(r := maps m2 r)\<rparr>"
    by (simp add: m2_def edit_map_def)
  have c: "maps m2 (connections m2) = maps m (connections m)"
    using a b by (simp add: m2_def edit_map_def)
  have r1: "r \<noteq> connections m1" using a by simp
  have f: "rtc_run m2 ops =
     (case rtc_run m1 ops of (m', outs) \<Rightarrow> (m'\<lparr>maps := (maps m')(r := maps m2 r)\<rparr>, outs))"
    using frame_run[OF r1 a(3), of "maps m2 r" ops] m2 by simp
  have d: "snd (rtc_run m2 ops) = snd (rtc_run m1 ops)"
    unfolding f by (simp split: prod.splits)
  have e: "fst (rtc_run m2 ops) =
              (fst (rtc_run m1 ops))\<lparr>maps := (maps (fst (rtc_run m1 ops)))(r := maps m2 r)\<rparr>"
    unfolding f by (simp split: prod.splits)
  show ?thesis
    unfolding g Let_def prod.case m2_def[symmetric]
    using a b c d e by simp
qed


subsection \<open>The sample state\<close>

lemma two_peers_reached:
  "two_peers =
     fst (rtc_run (init_manager (Some 9))
       [Initialize True, CreateConnection ''bob'' True True 100,
        CreateConnection ''carol'' False True 200, PeerConnects 2, PeerStreams 2 50])"
  by (simp add: two_peers_def)

lemma two_peers_fields:
  "connections two_peers = 0" "allocated two_peers = 5"
  "maps two_peers 0 = [(''bob'', 2), (''carol'', 4)]"
  "remoteStreams two_peers = [(''bob'', 50)]"
  "peer (objects two_peers 2) = 1" "peer (objects two_peers 4) = 3"
  "isConnected (objects two_peers 2)" "\<not> isConnected (objects two_peers 4)"
  by (simp_all add: two_peers_def init_manager_def rtc_defs js_map_set_def js_map_get_def)

text \<open>Closing bob, who is connected with a stream, twice; closing dave, who is unknown.\<close>

theorem close_connection_idempotent_witness:
  "getConnection two_peers ''bob'' = Some 2 \<and>
   snd (closeConnection two_peers ''bob'') =
     [PeerDestroy 1, StopTracks 50, RLog (RemovedStream ''bob''), RLog (ClosedConnection ''bob'')] \<and>
   getConnection (fst (closeConnection two_peers ''bob'')) ''bob'' = None \<and>
   js_map_get (remoteStreams (fst (closeConnection two_peers ''bob''))) ''bob'' = None \<and>
   closeConnection (fst (closeConnection two_peers ''bob'')) ''bob'' =
     (fst (closeConnection two_peers ''bob''), []) \<and>
   getConnection two_peers ''dave'' = None \<and>
   closeConnection two_peers ''dave'' = (two_peers, [])"
proof -
  have a: "getConnection two_peers ''bob'' = Some 2"
    by (simp add: getConnection_def js_map_get_def two_peers_fields)
  have b: "getConnection two_peers ''dave'' = None"
    by (simp add: getConnection_def js_map_get_def two_peers_fields)
  have c: "js_map_get (remoteStreams two_peers) ''bob'' = Some 50"
    by (simp add: js_map_get_def two_peers_fields)
  note t1 = close_connection_idempotent[of two_peers "''bob''"]
  note t2 = close_connection_idempotent[of two_peers "''dave''"]
  have e: "snd (closeConnection two_peers ''bob'') =
     [PeerDestroy 1, StopTracks 50, RLog (RemovedStream ''bob''), RLog (ClosedConnection ''bob'')]"
    using t1 a c by (simp add: two_peers_fields)
  have g: "getConnection (fst (closeConnection two_peers ''bob'')) ''bob'' = None"
    "js_map_get (remoteStreams (fst (closeConnection two_peers ''bob''))) ''bob'' = None"
    using t1 a by blast+
  have h: "closeConnection (fst (closeConnection two_peers ''bob'')) ''bob'' =
     (fst (closeConnection two_peers ''bob''), [])"
    using t1 by blast
  have i: "closeConnection two_peers ''dave'' = (two_peers, [])"
    using t2 b by blast
  from a e g h b i show ?thesis by (intro conjI)
qed

text \<open>The copy is the object at address 5; bob is deleted from it and eve inserted.\<close>

theorem get_all_connections_defensive_copy_witness:
  "two_peers =
     fst (rtc_run (init_manager (Some 9))
       [Initialize True, CreateConnection ''bob'' True True 100,
        CreateConnection ''carol'' False True 200, PeerConnects 2, PeerStreams 2 50]) \<and>
   snd (getAllConnections two_peers) = 5 \<and>
   maps (edit_map (fst (getAllConnections two_peers)) 5 sample_edits) 5 = [(''carol'', 4), (''eve'', 7)] \<and>
   maps (edit_map (fst (getAllConnections two_peers)) 5 sample_edits) 0 = [(''bob'', 2), (''carol'', 4)] \<and>
   snd (rtc_run (edit_map (fst (getAllConnections two_peers)) 5 sample_edits) sample_ops) =
     snd (rtc_run (fst (getAllConnections two_peers)) sample_ops)"
proof -
  have g: "getAllConnections two_peers = (fst (getAllConnections two_peers), 5)"
    by (simp add: getAllConnections_def two_peers_fields)
  have c: "connections (edit_map (fst (getAllConnections two_peers)) 5 sample_edits) = 0"
    by (simp add: edit_map_def getAllConnections_def two_peers_fields)
  have e: "maps (edit_map (fst (getAllConnections two_peers)) 5 sample_edits) 5 = [(''carol'', 4), (''eve'', 7)]"
    by (simp add: edit_map_def getAllConnections_def two_peers_fields sample_edits_def
          js_map_set_def js_map_delete_def)
  note t = get_all_connections_defensive_copy[OF two_peers_reached, of sample_edits sample_ops]
  have t': "maps (edit_map (fst (getAllConnections two_peers)) 5 sample_edits)
              (connections (edit_map (fst (getAllConnections two_peers)) 5 sample_edits)) =
            maps two_peers (connections two_peers) \<and>
            snd (rtc_run (edit_map (fst (getAllConnections two_peers)) 5 sample_edits) sample_ops) =
              snd (rtc_run (fst (getAllConnections two_peers)) sample_ops)"
    using t unfolding Let_def by (subst (asm) g) (simp del: rtc_run.simps)
  from t' c have i: "maps (edit_map (fst (getAllConnections two_peers)) 5 sample_edits) 0 =
      [(''bob'', 2), (''carol'', 4)]"
    by (simp add: two_peers_fields del: rtc_run.simps)
  have s: "snd (getAllConnections two_peers) = 5"
    by (simp add: getAllConnections_def two_peers_fields)
  have d: "snd (rtc_run (edit_map (fst (getAllConnections two_peers)) 5 sample_edits) sample_ops) =
              snd (rtc_run (fst (getAllConnections two_peers)) sample_ops)"
    using t' by (rule conjunct2)
  from two_peers_reached s e i d show ?thesis
    by (intro conjI)
qed

end
